theory Spec2Isabelle
  imports Main "HOL-Library.List_Lexorder" "HOL-Library.Char_ord"
begin

section \<open>Data model (src/src/App.tsx, interfaces Student, AttendanceRecord, Fee, DashboardData)\<close>

text \<open>
  Calendar dates are the triples (year, month 1..12, day) that the strings
  \<^verbatim>\<open>YYYY-MM-DD\<close> of the source denote; a reporting month is the pair that
  \<^verbatim>\<open>YYYY-MM\<close> denotes. The store compares date columns chronologically, which
  is \<open>date_le\<close>. Columns that no derivation reads (school name, phone, notes, batch,
  teacher) are left out of the records. Ids and amounts are JavaScript numbers holding
  integers (\<^verbatim>\<open>parseInt\<close> at entry): \<open>int\<close>; arithmetic on them is that of
  doubles (\<open>js_add\<close>).

  src/unnamed/part_000 is an earlier variant of the same page, without attendance: its
  fetchData has the same month bounds, the same queries for active students, fees and
  left students, and the same fee fields of the dashboard.
\<close>

type_synonym date = "int \<times> nat \<times> nat"
type_synonym month = "int \<times> nat"

datatype status = Active | Left
datatype att_status = Present | Absent | Leave | Holiday
datatype payment_mode = Cash | Online

record Student =
  s_id :: int
  s_full_name :: string
  s_class_grade :: string
  s_admission_date :: date
  s_status :: status
  s_leaving_date :: "date option"

record AttendanceRecord =
  a_student_id :: int
  a_attendance_date :: date
  a_status :: att_status

record Fee =
  f_id :: int
  f_student_id :: int
  f_fee_month :: month
  f_amount :: int
  f_paid_date :: string
  f_payment_mode :: payment_mode
  f_payment_reference :: "string option"

text \<open>The embedded resource \<^verbatim>\<open>student:students(full_name, class_grade, ...)\<close> of the fee query.\<close>

record StudentRef =
  r_full_name :: string
  r_class_grade :: string

record PaidFee = Fee +
  student :: "StudentRef option"

text \<open>
  A JavaScript number is an IEEE 754 double. Amounts are integers, so the numbers that
  the sums of amounts meet are the doubles of integer value, the two infinities and NaN.
\<close>

datatype jsnumber = Num int | PosInfinity | NegInfinity | NaN

record DashboardData =
  activeCount :: nat
  totalCollected :: jsnumber
  cashCollected :: jsnumber
  onlineCollected :: jsnumber
  paidCount :: nat
  unpaidCount :: nat
  leftThisMonth :: nat
  unpaidStudents :: "Student list"
  paidFees :: "PaidFee list"
  monthlyAttendance :: "AttendanceRecord list"

section \<open>Calendar arithmetic and the JavaScript Date built-ins used by fetchData\<close>

definition date_le :: "date \<Rightarrow> date \<Rightarrow> bool" where
  "date_le a b =
     (case a of (y1, m1, d1) \<Rightarrow> case b of (y2, m2, d2) \<Rightarrow>
        y1 < y2 \<or> (y1 = y2 \<and> (m1 < m2 \<or> (m1 = m2 \<and> d1 \<le> d2))))"

definition leap_year :: "int \<Rightarrow> bool" where
  "leap_year y = (y mod 4 = 0 \<and> (y mod 400 = 0 \<or> y mod 100 \<noteq> 0))"

definition days_in_month :: "int \<Rightarrow> nat \<Rightarrow> nat" where
  "days_in_month y m =
     (if m = 2 then (if leap_year y then 29 else 28)
      else if m = 4 \<or> m = 6 \<or> m = 9 \<or> m = 11 then 30 else 31)"

definition next_day :: "date \<Rightarrow> date" where
  "next_day dt =
     (case dt of (y, m, d) \<Rightarrow>
        if d < days_in_month y m then (y, m, d + 1)
        else if m < 12 then (y, m + 1, 1) else (y + 1, 1, 1))"

definition prev_day :: "date \<Rightarrow> date" where
  "prev_day dt =
     (case dt of (y, m, d) \<Rightarrow>
        if 1 < d then (y, m, d - 1)
        else if 1 < m then (y, m - 1, days_in_month y (m - 1)) else (y - 1, 12, 31))"

definition shift_days :: "int \<Rightarrow> date \<Rightarrow> date" where
  "shift_days k dt = (if 0 \<le> k then (next_day ^^ nat k) dt else (prev_day ^^ nat (- k)) dt)"

text \<open>
  A JavaScript \<^verbatim>\<open>Date\<close> is an instant on the UTC time line, or invalid. Only
  whole minutes matter here, so a valid instant is the UTC calendar date with the minute
  of that day (0..1439). The host's time zone is ECMAScript's LocalTZA: the offset in
  minutes east of UTC that is in force at an instant, asked for an instant given in UTC
  (\<open>tz True t\<close>) or given in local time (\<open>tz False t\<close>); with daylight saving the two
  \<^verbatim>\<open>Date\<close> values of one expression can have different offsets. Offsets are
  less than a day.

  \<^item> \<^verbatim>\<open>new Date('YYYY-MM-DD')\<close> (date-only ISO form) is UTC midnight of that date;
  \<^item> \<^verbatim>\<open>getFullYear()\<close> and \<^verbatim>\<open>getMonth()\<close> read the local calendar fields
    (the instant moved by the offset in force at it), the month as an index 0..11;
  \<^item> \<^verbatim>\<open>new Date(y, monthIndex, day)\<close> is local midnight of the day that
    ECMAScript's MakeDay finds: a year 0..99 stands for 1900 + y, month index 12 is
    January of the next year and day 0 is the day before the first;
  \<^item> \<^verbatim>\<open>toISOString().split('T')[0]\<close> is the UTC calendar date of the instant; on
    an invalid Date \<^verbatim>\<open>toISOString\<close> throws a RangeError.
\<close>

type_synonym JSDate = "date \<times> int"

type_synonym zone = "bool \<Rightarrow> JSDate \<Rightarrow> int"

definition fixed_zone :: "int \<Rightarrow> zone" where
  "fixed_zone k = (\<lambda>isUTC t. k)"

abbreviation utc :: zone where
  "utc \<equiv> fixed_zone 0"

abbreviation ist :: zone where
  "ist \<equiv> fixed_zone 330"

datatype js_error = RangeError | TypeError

definition shift_minutes :: "int \<Rightarrow> JSDate \<Rightarrow> JSDate" where
  "shift_minutes k t =
     (case t of (d, mn) \<Rightarrow>
        if mn + k < 0 then (prev_day d, mn + k + 1440)
        else if 1440 \<le> mn + k then (next_day d, mn + k - 1440)
        else (d, mn + k))"

definition Date_parse :: "date \<Rightarrow> JSDate" where
  "Date_parse d = (d, 0)"

definition getFullYear :: "zone \<Rightarrow> JSDate \<Rightarrow> int" where
  "getFullYear tz t = fst (fst (shift_minutes (tz True t) t))"

definition getMonth :: "zone \<Rightarrow> JSDate \<Rightarrow> int" where
  "getMonth tz t = int (fst (snd (fst (shift_minutes (tz True t) t)))) - 1"

definition MakeDay :: "int \<Rightarrow> int \<Rightarrow> int \<Rightarrow> date" where
  "MakeDay y mi dt = shift_days (dt - 1) (y + mi div 12, nat (mi mod 12) + 1, 1)"

definition Date_local :: "zone \<Rightarrow> int \<Rightarrow> int \<Rightarrow> int \<Rightarrow> JSDate" where
  "Date_local tz y mi dt =
     (let local = (MakeDay (if 0 \<le> y \<and> y \<le> 99 then 1900 + y else y) mi dt, 0)
      in shift_minutes (- tz False local) local)"

definition toISOString_date :: "JSDate \<Rightarrow> date" where
  "toISOString_date t = fst t"

text \<open>
  fetchData, lines 198-199:
  \<^verbatim>\<open>const startOfMonth = `${selectedMonth}-01`;\<close>
  \<^verbatim>\<open>const endOfMonth = new Date(new Date(startOfMonth).getFullYear(),
      new Date(startOfMonth).getMonth() + 1, 0).toISOString().split('T')[0];\<close>

  \<^verbatim>\<open>selectedMonth\<close> is a string. When it is a month \<^verbatim>\<open>YYYY-MM\<close> (year
  0000..9999, month 01..12: \<open>valid_month\<close>) the two lines give the dates
  \<open>startOfMonth\<close> and \<open>endOfMonth\<close>. A string of this shape that names no month
  (as \<^verbatim>\<open>2024-13\<close>; the month field is a plain text field in browsers without a
  month picker) is a pair outside \<open>valid_month\<close>: then
  \<^verbatim>\<open>new Date(startOfMonth)\<close> is an invalid Date, so is the Date built from its
  fields, and \<^verbatim>\<open>toISOString\<close> throws a RangeError. What the date parser of a given
  browser makes of a text of another shape is not modelled. \<open>month_bounds\<close> is the two
  lines as fetchData runs them.
\<close>

definition valid_month :: "month \<Rightarrow> bool" where
  "valid_month selectedMonth =
     (0 \<le> fst selectedMonth \<and> fst selectedMonth \<le> 9999 \<and>
      1 \<le> snd selectedMonth \<and> snd selectedMonth \<le> 12)"

definition startOfMonth :: "month \<Rightarrow> date" where
  "startOfMonth selectedMonth = (fst selectedMonth, snd selectedMonth, 1)"

definition endOfMonth :: "zone \<Rightarrow> month \<Rightarrow> date" where
  "endOfMonth tz selectedMonth =
     toISOString_date
       (Date_local tz
          (getFullYear tz (Date_parse (startOfMonth selectedMonth)))
          (getMonth tz (Date_parse (startOfMonth selectedMonth)) + 1)
          0)"

definition month_bounds :: "zone \<Rightarrow> month \<Rightarrow> js_error + date \<times> date" where
  "month_bounds tz selectedMonth =
     (if valid_month selectedMonth
      then Inr (startOfMonth selectedMonth, endOfMonth tz selectedMonth)
      else Inl RangeError)"

text \<open>The calendar's last day of a month, for comparison with what the code computes.\<close>

definition last_day_of_month :: "month \<Rightarrow> date" where
  "last_day_of_month M = (fst M, snd M, days_in_month (fst M) (snd M))"

section \<open>The store's queries\<close>

text \<open>
  The store is the three tables. Each query of fetchData is a filter that the store
  evaluates; a comparison with a NULL column is not true, so a student without
  leaving date never satisfies \<^verbatim>\<open>leaving_date.gte\<close>.
\<close>

record Store =
  students_tbl :: "Student list"
  fees_tbl :: "Fee list"
  attendance_tbl :: "AttendanceRecord list"

text \<open>
  \<^verbatim>\<open>.from('students').select('*').lte('admission_date', endOfMonth)
     .or(`status.eq.Active,leaving_date.gte.${startOfMonth}`)\<close>
\<close>

definition activeStudentsQuery :: "date \<Rightarrow> date \<Rightarrow> Student list \<Rightarrow> Student list" where
  "activeStudentsQuery som eom tbl =
     filter (\<lambda>s. date_le (s_admission_date s) eom \<and>
                 (s_status s = Active \<or>
                  (case s_leaving_date s of None \<Rightarrow> False | Some l \<Rightarrow> date_le som l)))
       tbl"

definition activeStudents :: "zone \<Rightarrow> month \<Rightarrow> Student list \<Rightarrow> Student list" where
  "activeStudents tz selectedMonth tbl =
     activeStudentsQuery (startOfMonth selectedMonth) (endOfMonth tz selectedMonth) tbl"

text \<open>
  \<^verbatim>\<open>.from('fees').select('*, student:students(full_name, class_grade, batch_timing)')
     .eq('fee_month', selectedMonth)\<close>: the fee rows of the month, each with the student row
  its \<^verbatim>\<open>student_id\<close> points to (null when there is none).
\<close>

definition embed_student :: "Student list \<Rightarrow> Fee \<Rightarrow> PaidFee" where
  "embed_student tbl f =
     \<lparr>f_id = f_id f, f_student_id = f_student_id f, f_fee_month = f_fee_month f,
      f_amount = f_amount f, f_paid_date = f_paid_date f,
      f_payment_mode = f_payment_mode f, f_payment_reference = f_payment_reference f,
      student =
        (case find (\<lambda>s. s_id s = f_student_id f) tbl of
           None \<Rightarrow> None
         | Some s \<Rightarrow> Some \<lparr>r_full_name = s_full_name s, r_class_grade = s_class_grade s\<rparr>)\<rparr>"

definition paidFeesQuery :: "month \<Rightarrow> Store \<Rightarrow> PaidFee list" where
  "paidFeesQuery selectedMonth st =
     map (embed_student (students_tbl st))
       (filter (\<lambda>f. f_fee_month f = selectedMonth) (fees_tbl st))"

text \<open>
  \<^verbatim>\<open>.from('students').select('id').eq('status', 'Left')
     .gte('leaving_date', startOfMonth).lte('leaving_date', endOfMonth)\<close>
\<close>

definition leftStudentsQuery :: "date \<Rightarrow> date \<Rightarrow> Student list \<Rightarrow> int list" where
  "leftStudentsQuery som eom tbl =
     map s_id
       (filter (\<lambda>s. s_status s = Left \<and>
                    (case s_leaving_date s of
                       None \<Rightarrow> False
                     | Some l \<Rightarrow> date_le som l \<and> date_le l eom))
          tbl)"

text \<open>
  \<^verbatim>\<open>.from('attendance').select('*').gte('attendance_date', startOfMonth)
     .lte('attendance_date', endOfMonth)\<close>
\<close>

definition monthlyAttQuery :: "date \<Rightarrow> date \<Rightarrow> AttendanceRecord list \<Rightarrow> AttendanceRecord list" where
  "monthlyAttQuery som eom tbl =
     filter (\<lambda>a. date_le som (a_attendance_date a) \<and> date_le (a_attendance_date a) eom) tbl"

text \<open>\<^verbatim>\<open>.from('attendance').select('*').eq('attendance_date', attendanceDate)\<close>\<close>

definition attendanceQuery :: "date \<Rightarrow> AttendanceRecord list \<Rightarrow> AttendanceRecord list" where
  "attendanceQuery attendanceDate tbl = filter (\<lambda>a. a_attendance_date a = attendanceDate) tbl"

text \<open>
  \<^verbatim>\<open>.from('students').select('*').order('full_name', { ascending: true })\<close>: the
  table sorted by name, here in the order of the character codes (the store's collation
  may order letters otherwise; no claim depends on the order).
\<close>

definition studentsQuery :: "Student list \<Rightarrow> Student list" where
  "studentsQuery tbl = sort_key s_full_name tbl"

section \<open>Fee reconciliation (fetchData, lines 229-248)\<close>

text \<open>
  A JavaScript \<^verbatim>\<open>Set\<close> keeps each value once, in the order of first insertion:
  a list without repetition. \<^verbatim>\<open>new Set(xs)\<close> adds the elements of \<open>xs\<close> in turn.
\<close>

definition Set_add :: "'a \<Rightarrow> 'a list \<Rightarrow> 'a list" where
  "Set_add x s = (if x \<in> set s then s else s @ [x])"

definition Set_new :: "'a list \<Rightarrow> 'a list" where
  "Set_new xs = foldl (\<lambda>s x. Set_add x s) [] xs"

definition Set_has :: "'a list \<Rightarrow> 'a \<Rightarrow> bool" where
  "Set_has s x = (x \<in> set s)"

text \<open>
  Addition of doubles is the exact sum rounded to the nearest double, ties to the even
  significand, and an infinity beyond the largest double. \<open>round_double\<close> rounds an
  integer: up to \<open>2 ^ 53\<close> in absolute value every integer is a double; a larger one
  of \<open>n\<close> binary digits keeps its 53 leading digits, so it is rounded to a multiple of
  \<open>2 ^ (n - 53)\<close>.
\<close>

fun bit_length :: "nat \<Rightarrow> nat" where
  "bit_length n = (if n = 0 then 0 else Suc (bit_length (n div 2)))"

definition round_double :: "int \<Rightarrow> int" where
  "round_double x =
     (if \<bar>x\<bar> \<le> 2 ^ 53 then x
      else (let a = nat \<bar>x\<bar>;
                q = 2 ^ (bit_length a - 53);
                n = a div q;
                r = a mod q;
                m = (if 2 * r < q \<or> (2 * r = q \<and> even n) then n else n + 1)
            in sgn x * int (m * q)))"

definition to_number :: "int \<Rightarrow> jsnumber" where
  "to_number x =
     (if 2 ^ 1024 \<le> round_double x then PosInfinity
      else if round_double x \<le> - (2 ^ 1024) then NegInfinity
      else Num (round_double x))"

fun js_add :: "jsnumber \<Rightarrow> jsnumber \<Rightarrow> jsnumber" where
  "js_add (Num a) (Num b) = to_number (a + b)"
| "js_add NaN y = NaN"
| "js_add x NaN = NaN"
| "js_add PosInfinity NegInfinity = NaN"
| "js_add NegInfinity PosInfinity = NaN"
| "js_add PosInfinity y = PosInfinity"
| "js_add x PosInfinity = PosInfinity"
| "js_add NegInfinity y = NegInfinity"
| "js_add x NegInfinity = NegInfinity"

text \<open>
  \<^verbatim>\<open>xs.reduce((sum, f) => sum + f.amount, 0)\<close>; \<^verbatim>\<open>f.amount\<close> is the double
  that holds the amount.
\<close>

definition sum_amount :: "PaidFee list \<Rightarrow> jsnumber" where
  "sum_amount xs = foldl (\<lambda>sum f. js_add sum (to_number (f_amount f))) (Num 0) xs"

definition paidStudentIds :: "PaidFee list \<Rightarrow> int list" where
  "paidStudentIds paid = Set_new (map f_student_id paid)"

text \<open>
  The body of \<^verbatim>\<open>if (activeStudents && paidFees) { ... setDashboard({...}) }\<close>: the
  value handed to setDashboard, from the four query results. The first two are present
  there; \<^verbatim>\<open>leftStudents?.length || 0\<close> and \<^verbatim>\<open>monthlyAtt || []\<close> cover the
  other two being null.
\<close>

definition computeDashboard ::
  "Student list \<Rightarrow> PaidFee list \<Rightarrow> int list option \<Rightarrow> AttendanceRecord list option \<Rightarrow> DashboardData"
where
  "computeDashboard activeSt paid leftSt monthlyAtt =
     \<lparr>activeCount = length activeSt,
      totalCollected = sum_amount paid,
      cashCollected = sum_amount (filter (\<lambda>f. f_payment_mode f = Cash) paid),
      onlineCollected = sum_amount (filter (\<lambda>f. f_payment_mode f = Online) paid),
      paidCount = length paid,
      unpaidCount =
        length (filter (\<lambda>s. \<not> Set_has (paidStudentIds paid) (s_id s)) activeSt),
      leftThisMonth = (case leftSt of None \<Rightarrow> 0 | Some l \<Rightarrow> length l),
      unpaidStudents = filter (\<lambda>s. \<not> Set_has (paidStudentIds paid) (s_id s)) activeSt,
      paidFees = paid,
      monthlyAttendance = (case monthlyAtt of None \<Rightarrow> [] | Some a \<Rightarrow> a)\<rparr>"

text \<open>
  One reconciliation of a store for a month with every query answered: the dashboard
  that fetchData publishes when the selected month is a valid month (for another one
  fetchData stops at line 199 and publishes none, see \<open>resume\<close>).
\<close>

definition reconcile :: "zone \<Rightarrow> month \<Rightarrow> Store \<Rightarrow> DashboardData" where
  "reconcile tz selectedMonth st =
     computeDashboard
       (activeStudents tz selectedMonth (students_tbl st))
       (paidFeesQuery selectedMonth st)
       (Some (leftStudentsQuery (startOfMonth selectedMonth) (endOfMonth tz selectedMonth)
                (students_tbl st)))
       (Some (monthlyAttQuery (startOfMonth selectedMonth) (endOfMonth tz selectedMonth)
                (attendance_tbl st)))"

section \<open>Example snapshots\<close>

definition ex_student :: "int \<Rightarrow> string \<Rightarrow> Student" where
  "ex_student i n =
     \<lparr>s_id = i, s_full_name = n, s_class_grade = ''8'', s_admission_date = (2023, 6, 1),
      s_status = Active, s_leaving_date = None\<rparr>"

definition ex_fee :: "int \<Rightarrow> int \<Rightarrow> int \<Rightarrow> payment_mode \<Rightarrow> Fee" where
  "ex_fee i sid amt mode =
     \<lparr>f_id = i, f_student_id = sid, f_fee_month = (2024, 1), f_amount = amt,
      f_paid_date = ''2024-01-05'', f_payment_mode = mode, f_payment_reference = None\<rparr>"

definition ex_store :: Store where
  "ex_store =
     \<lparr>students_tbl = [ex_student 1 ''Asha'', ex_student 2 ''Bina''],
      fees_tbl = [ex_fee 1 1 500 Cash, ex_fee 2 1 300 Online],
      attendance_tbl = []\<rparr>"

definition ex_store_adv :: Store where
  "ex_store_adv =
     \<lparr>students_tbl =
        [ex_student 1 ''Asha'', (ex_student 9 ''Ravi'')\<lparr>s_admission_date := (2024, 2, 5)\<rparr>],
      fees_tbl = [ex_fee 1 9 500 Cash],
      attendance_tbl = []\<rparr>"

definition ex_store_big :: Store where
  "ex_store_big =
     \<lparr>students_tbl = [ex_student 1 ''Asha''],
      fees_tbl = [ex_fee 1 1 (2 ^ 53) Cash, ex_fee 2 1 1 Online, ex_fee 3 1 1 Online],
      attendance_tbl = []\<rparr>"

section \<open>Counts as the specification words them\<close>

text \<open>
  Amounts whose absolute values add up to at most \<open>2 ^ 53\<close>: every sum of some of
  them, in any order, is an integer that a double holds exactly.
\<close>

definition safe_amounts :: "int list \<Rightarrow> bool" where
  "safe_amounts as = (sum_list (map abs as) \<le> 2 ^ 53)"


text \<open>
  The number of distinct students that have at least one payment row for the period:
  the specification's reading of "paid count", to compare with what fetchData stores.
\<close>

definition spec_paid_student_count :: "month \<Rightarrow> Fee list \<Rightarrow> nat" where
  "spec_paid_student_count M fees =
     card (set (map f_student_id (filter (\<lambda>f. f_fee_month f = M) fees)))"

section \<open>Attendance aggregation\<close>

text \<open>
  attendanceSummary (lines 286-308). \<^verbatim>\<open>summary\<close> is an object keyed by student id:
  a map. The forEach creates the entry of a student at its first record and increments
  the counter of the record's status; the result is one row per student of the
  \<^verbatim>\<open>students\<close> state that is Active and passes the class filter (an empty
  \<^verbatim>\<open>reportFilter\<close> is falsy and filters nothing), with the student's entry or
  zeros. Without a published dashboard the summary is empty.
\<close>

record Stats =
  present :: nat
  absent :: nat
  leave :: nat
  holiday :: nat

record SummaryRow =
  row_student :: Student
  row_stats :: Stats

definition zero_stats :: Stats where
  "zero_stats = \<lparr>present = 0, absent = 0, leave = 0, holiday = 0\<rparr>"

definition tally :: "(int \<rightharpoonup> Stats) \<Rightarrow> AttendanceRecord \<Rightarrow> (int \<rightharpoonup> Stats)" where
  "tally summary record =
     (let s0 = (case summary (a_student_id record) of None \<Rightarrow> zero_stats | Some s \<Rightarrow> s);
          s1 = (if a_status record = Present then s0\<lparr>present := present s0 + 1\<rparr> else s0);
          s2 = (if a_status record = Absent then s1\<lparr>absent := absent s1 + 1\<rparr> else s1);
          s3 = (if a_status record = Leave then s2\<lparr>leave := leave s2 + 1\<rparr> else s2);
          s4 = (if a_status record = Holiday then s3\<lparr>holiday := holiday s3 + 1\<rparr> else s3)
      in summary(a_student_id record \<mapsto> s4))"

definition attendanceSummary :: "DashboardData option \<Rightarrow> Student list \<Rightarrow> string \<Rightarrow> SummaryRow list" where
  "attendanceSummary dashboard students reportFilter =
     (case dashboard of
        None \<Rightarrow> []
      | Some d \<Rightarrow>
          map (\<lambda>s. \<lparr>row_student = s,
                     row_stats =
                       (case foldl tally Map.empty (monthlyAttendance d) (s_id s) of
                          None \<Rightarrow> zero_stats
                        | Some st \<Rightarrow> st)\<rparr>)
            (filter (\<lambda>s. reportFilter = [] \<or> s_class_grade s = reportFilter)
               (filter (\<lambda>s. s_status s = Active) students)))"

text \<open>The number of a student's rows with a given status, as the specification counts.\<close>

definition count_status :: "int \<Rightarrow> att_status \<Rightarrow> AttendanceRecord list \<Rightarrow> nat" where
  "count_status sid st rows =
     length (filter (\<lambda>a. a_student_id a = sid \<and> a_status a = st) rows)"

definition ex_att :: "int \<Rightarrow> nat \<Rightarrow> att_status \<Rightarrow> AttendanceRecord" where
  "ex_att sid day st = \<lparr>a_student_id = sid, a_attendance_date = (2024, 1, day), a_status = st\<rparr>"

definition ex_store_att :: Store where
  "ex_store_att =
     \<lparr>students_tbl =
        [ex_student 1 ''Asha'', ex_student 2 ''Bina'',
         (ex_student 3 ''Ravi'')\<lparr>s_status := Left, s_leaving_date := Some (2024, 1, 20)\<rparr>],
      fees_tbl = [],
      attendance_tbl =
        [ex_att 1 3 Present, ex_att 3 3 Present, ex_att 1 4 Present, ex_att 1 5 Absent]\<rparr>"

definition ex_store_last_day :: Store where
  "ex_store_last_day =
     \<lparr>students_tbl = [ex_student 1 ''Asha''],
      fees_tbl = [],
      attendance_tbl = [ex_att 1 30 Present, ex_att 1 31 Present]\<rparr>"

text \<open>A date of the calendar month M, as the specification counts the rows "in M".\<close>

definition in_month :: "month \<Rightarrow> date \<Rightarrow> bool" where
  "in_month M d = (fst d = fst M \<and> fst (snd d) = snd M)"

definition stats_of :: "(int \<rightharpoonup> Stats) \<Rightarrow> int \<Rightarrow> Stats" where
  "stats_of m sid = (case m sid of None \<Rightarrow> zero_stats | Some st \<Rightarrow> st)"

section \<open>Attendance writes\<close>

text \<open>
  Modelled from the spec: the store's \<^verbatim>\<open>upsert\<close> on the attendance table with
  \<^verbatim>\<open>onConflict: 'student_id,attendance_date'\<close>. The store is a hosted service
  and its code is not in the repository; section 4.4 and section 6 of the specification
  give its contract: a write for (student, date) inserts a new record or replaces the
  existing one for that exact key, a bulk write applies this to every row of the batch,
  and the store may refuse rows (\<open>accepted\<close> says which rows it takes).
\<close>

definition att_key :: "AttendanceRecord \<Rightarrow> int \<times> date" where
  "att_key a = (a_student_id a, a_attendance_date a)"

definition upsert_row :: "AttendanceRecord \<Rightarrow> AttendanceRecord list \<Rightarrow> AttendanceRecord list" where
  "upsert_row r tbl =
     (if att_key r \<in> set (map att_key tbl)
      then map (\<lambda>a. if att_key a = att_key r then r else a) tbl
      else tbl @ [r])"

definition store_upsert ::
  "(AttendanceRecord \<Rightarrow> bool) \<Rightarrow> AttendanceRecord list \<Rightarrow> AttendanceRecord list \<Rightarrow> AttendanceRecord list"
where
  "store_upsert accepted rows tbl = foldl (\<lambda>t r. if accepted r then upsert_row r t else t) tbl rows"

text \<open>
  markAttendance (lines 311-328) sends one row for the selected attendance date. The
  handlers of "Mark All Present" (lines 646-663) and "Mark All Holiday" (lines 664-681)
  build the batch \<^verbatim>\<open>upserts\<close>, one row per student of
  \<^verbatim>\<open>filteredStudents\<close> that is Active, and send it in one call; they differ in
  the status only. The result is the attendance table after the call.
\<close>

definition markAttendance ::
  "(AttendanceRecord \<Rightarrow> bool) \<Rightarrow> date \<Rightarrow> int \<Rightarrow> att_status \<Rightarrow> AttendanceRecord list \<Rightarrow> AttendanceRecord list"
where
  "markAttendance accepted attendanceDate studentId st tbl =
     store_upsert accepted
       [\<lparr>a_student_id = studentId, a_attendance_date = attendanceDate, a_status = st\<rparr>] tbl"

definition upserts :: "att_status \<Rightarrow> date \<Rightarrow> Student list \<Rightarrow> AttendanceRecord list" where
  "upserts st attendanceDate filteredStudents =
     (let active = filter (\<lambda>s. s_status s = Active) filteredStudents
      in map (\<lambda>s. \<lparr>a_student_id = s_id s, a_attendance_date = attendanceDate, a_status = st\<rparr>) active)"

definition markAllPresent ::
  "(AttendanceRecord \<Rightarrow> bool) \<Rightarrow> date \<Rightarrow> Student list \<Rightarrow> AttendanceRecord list \<Rightarrow> AttendanceRecord list"
where
  "markAllPresent accepted attendanceDate filteredStudents tbl =
     store_upsert accepted (upserts Present attendanceDate filteredStudents) tbl"

definition markAllHoliday ::
  "(AttendanceRecord \<Rightarrow> bool) \<Rightarrow> date \<Rightarrow> Student list \<Rightarrow> AttendanceRecord list \<Rightarrow> AttendanceRecord list"
where
  "markAllHoliday accepted attendanceDate filteredStudents tbl =
     store_upsert accepted (upserts Holiday attendanceDate filteredStudents) tbl"

text \<open>The invariant: at most one attendance record per (student, date).\<close>

definition unique_keys :: "AttendanceRecord list \<Rightarrow> bool" where
  "unique_keys tbl = distinct (map att_key tbl)"

definition ex_day :: date where
  "ex_day = (2024, 1, 15)"

definition ex_filtered :: "Student list" where
  "ex_filtered =
     [ex_student 1 ''Asha'', ex_student 2 ''Bina'', ex_student 3 ''Chitra'',
      (ex_student 4 ''Ravi'')\<lparr>s_status := Left, s_leaving_date := Some (2024, 1, 10)\<rparr>]"

definition ex_marks :: "AttendanceRecord list" where
  "ex_marks = [\<lparr>a_student_id = 2, a_attendance_date = ex_day, a_status = Holiday\<rparr>]"

definition ex_marks_two_days :: "AttendanceRecord list" where
  "ex_marks_two_days =
     [\<lparr>a_student_id = 1, a_attendance_date = (2024, 1, 14), a_status = Absent\<rparr>,
      \<lparr>a_student_id = 2, a_attendance_date = ex_day, a_status = Present\<rparr>,
      \<lparr>a_student_id = 4, a_attendance_date = ex_day, a_status = Leave\<rparr>]"

section \<open>Report export\<close>

text \<open>
  exportCSV (lines 410-450). \<^verbatim>\<open>Array.prototype.join\<close> puts the separator between
  the elements and turns each element into a string: a number into its decimal digits.
\<close>

fun join :: "string \<Rightarrow> string list \<Rightarrow> string" where
  "join sep [] = []"
| "join sep [x] = x"
| "join sep (x # y # ys) = x @ sep @ join sep (y # ys)"

definition digit_char :: "nat \<Rightarrow> char" where
  "digit_char n = ''0123456789'' ! n"

fun string_of_nat :: "nat \<Rightarrow> string" where
  "string_of_nat n =
     (if n < 10 then [digit_char n] else string_of_nat (n div 10) @ [digit_char (n mod 10)])"

definition String_int :: "int \<Rightarrow> string" where
  "String_int i = (if i < 0 then CHR ''-'' # string_of_nat (nat (- i)) else string_of_nat (nat i))"

definition payment_mode_str :: "payment_mode \<Rightarrow> string" where
  "payment_mode_str m = (case m of Cash \<Rightarrow> ''Cash'' | Online \<Rightarrow> ''Online'')"

definition fee_headers :: "string list" where
  "fee_headers = [''Student Name'', ''Amount'', ''Date'', ''Mode'', ''Reference'']"

definition att_headers :: "string list" where
  "att_headers = [''Student Name'', ''Class'', ''Present'', ''Absent'', ''Leave'', ''Holiday'']"

text \<open>
  \<^verbatim>\<open>f.student?.full_name || 'Unknown'\<close> and \<^verbatim>\<open>f.payment_reference || ''\<close>:
  a missing value and the empty string are both falsy.
\<close>

definition fee_row :: "PaidFee \<Rightarrow> string list" where
  "fee_row f =
     [(case student f of
         None \<Rightarrow> ''Unknown''
       | Some r \<Rightarrow> if r_full_name r = [] then ''Unknown'' else r_full_name r),
      String_int (f_amount f),
      f_paid_date f,
      payment_mode_str (f_payment_mode f),
      (case f_payment_reference f of None \<Rightarrow> [] | Some p \<Rightarrow> p)]"

definition att_row :: "SummaryRow \<Rightarrow> string list" where
  "att_row row =
     [s_full_name (row_student row),
      s_class_grade (row_student row),
      string_of_nat (present (row_stats row)),
      string_of_nat (absent (row_stats row)),
      string_of_nat (leave (row_stats row)),
      string_of_nat (holiday (row_stats row))]"

text \<open>\<^verbatim>\<open>!reportFilter || f.student?.class_grade === reportFilter\<close>\<close>

definition fee_in_report :: "string \<Rightarrow> PaidFee \<Rightarrow> bool" where
  "fee_in_report reportFilter f =
     (reportFilter = [] \<or>
      (case student f of None \<Rightarrow> False | Some r \<Rightarrow> r_class_grade r = reportFilter))"

text \<open>\<^verbatim>\<open>[headers, ...rows].map(e => e.join(",")).join("\n")\<close>\<close>

definition csvContent :: "string list \<Rightarrow> string list list \<Rightarrow> string" where
  "csvContent headers rows = join [CHR 0x0A] (map (join '','') (headers # rows))"

datatype reportType = FeesReport | AttendanceReport

text \<open>
  The result is the text handed to the Blob that the browser downloads; None is the
  early return of the fees branch when no dashboard is published.
\<close>

definition exportCSV ::
  "reportType \<Rightarrow> DashboardData option \<Rightarrow> Student list \<Rightarrow> string \<Rightarrow> string option"
where
  "exportCSV reportType dashboard students reportFilter =
     (case reportType of
        FeesReport \<Rightarrow>
          (case dashboard of
             None \<Rightarrow> None
           | Some d \<Rightarrow>
               Some (csvContent fee_headers
                       (map fee_row (filter (fee_in_report reportFilter) (paidFees d)))))
      | AttendanceReport \<Rightarrow>
          Some (csvContent att_headers
                  (map att_row (attendanceSummary dashboard students reportFilter))))"






definition ex_store_comma :: Store where
  "ex_store_comma =
     \<lparr>students_tbl = [ex_student 5 ''Rao, Asha''],
      fees_tbl = [ex_fee 1 5 500 Cash],
      attendance_tbl = []\<rparr>"

section \<open>The reconciliation pass and loop\<close>

text \<open>
  The derived state that fetchData publishes: the React states \<^verbatim>\<open>students\<close>,
  \<^verbatim>\<open>attendance\<close> and \<^verbatim>\<open>dashboard\<close> (null until the first setDashboard).
\<close>

record Published =
  pub_students :: "Student list"
  pub_attendance :: "AttendanceRecord list"
  pub_dashboard :: "DashboardData option"

datatype view = StudentsView | AttendanceView | DashboardView

text \<open>
  One call of fetchData is a pass. It suspends at each \<^verbatim>\<open>await\<close> of a store query
  and resumes when the answer arrives; between two awaits it runs without interruption.
  A pass keeps the \<^verbatim>\<open>selectedMonth\<close> and \<^verbatim>\<open>attendanceDate\<close> of the render
  that started it (its closure) and the answers it holds in local constants. The three
  health-check queries at the start of fetchData write only \<^verbatim>\<open>dbHealth\<close>, which is
  none of the derived views, and are left out.
\<close>

datatype pc =
  AwaitStudents | AwaitAttendance | AwaitActive | AwaitPaid | AwaitLeft | AwaitMonthly
  | Finished | Thrown js_error

record Pass =
  p_pc :: pc
  p_selectedMonth :: month
  p_attendanceDate :: date
  p_activeStudents :: "Student list option"
  p_paidFees :: "PaidFee list option"
  p_leftStudents :: "int list option"

definition start_pass :: "month \<Rightarrow> date \<Rightarrow> Pass" where
  "start_pass selectedMonth attendanceDate =
     \<lparr>p_pc = AwaitStudents, p_selectedMonth = selectedMonth, p_attendanceDate = attendanceDate,
      p_activeStudents = None, p_paidFees = None, p_leftStudents = None\<rparr>"

text \<open>
  resume: the answer to the pending query arrives and the pass runs to its next await.
  The answer is computed on the store as it is then (\<open>Some st\<close>), or the store cannot be
  reached and \<^verbatim>\<open>data\<close> is null (\<open>None\<close>). The result is the pass, the published
  state, and the view that this stretch of code set, if any:
  \<^verbatim>\<open>if (studentsData) setStudents(studentsData)\<close>,
  \<^verbatim>\<open>if (attData) setAttendance(attData)\<close>,
  \<^verbatim>\<open>if (activeStudents && paidFees) { ... setDashboard({...}) }\<close>.

  Lines 198-199 run in the stretch after the attendance answer, once
  \<^verbatim>\<open>setAttendance\<close> is done: when they throw, the pass ends there with the error
  (\<open>Thrown\<close>; fetchData has no \<^verbatim>\<open>try\<close>, and its callers do not await it), it
  sends no further query and sets no dashboard. The two constants are functions of the
  month only, so the later stretches read them as \<open>startOfMonth\<close> and \<open>endOfMonth\<close>
  of the pass's month.
\<close>

definition resume ::
  "zone \<Rightarrow> Store option \<Rightarrow> Pass \<Rightarrow> Published \<Rightarrow> Pass \<times> Published \<times> view option"
where
  "resume tz answer p pub =
     (case p_pc p of
        AwaitStudents \<Rightarrow>
          (case answer of
             None \<Rightarrow> (p\<lparr>p_pc := AwaitAttendance\<rparr>, pub, None)
           | Some st \<Rightarrow>
               (p\<lparr>p_pc := AwaitAttendance\<rparr>,
                pub\<lparr>pub_students := studentsQuery (students_tbl st)\<rparr>,
                Some StudentsView))
      | AwaitAttendance \<Rightarrow>
          (let next_pc =
                 (case month_bounds tz (p_selectedMonth p) of
                    Inl e \<Rightarrow> Thrown e
                  | Inr bounds \<Rightarrow> AwaitActive)
           in case answer of
                None \<Rightarrow> (p\<lparr>p_pc := next_pc\<rparr>, pub, None)
              | Some st \<Rightarrow>
                  (p\<lparr>p_pc := next_pc\<rparr>,
                   pub\<lparr>pub_attendance := attendanceQuery (p_attendanceDate p) (attendance_tbl st)\<rparr>,
                   Some AttendanceView))
      | AwaitActive \<Rightarrow>
          (p\<lparr>p_pc := AwaitPaid,
             p_activeStudents :=
               map_option (\<lambda>st. activeStudents tz (p_selectedMonth p) (students_tbl st)) answer\<rparr>,
           pub, None)
      | AwaitPaid \<Rightarrow>
          (p\<lparr>p_pc := AwaitLeft,
             p_paidFees := map_option (paidFeesQuery (p_selectedMonth p)) answer\<rparr>,
           pub, None)
      | AwaitLeft \<Rightarrow>
          (p\<lparr>p_pc := AwaitMonthly,
             p_leftStudents :=
               map_option
                 (\<lambda>st. leftStudentsQuery (startOfMonth (p_selectedMonth p))
                         (endOfMonth tz (p_selectedMonth p)) (students_tbl st))
                 answer\<rparr>,
           pub, None)
      | AwaitMonthly \<Rightarrow>
          (case p_activeStudents p of
             None \<Rightarrow> (p\<lparr>p_pc := Finished\<rparr>, pub, None)
           | Some activeSt \<Rightarrow>
               (case p_paidFees p of
                  None \<Rightarrow> (p\<lparr>p_pc := Finished\<rparr>, pub, None)
                | Some paid \<Rightarrow>
                    (p\<lparr>p_pc := Finished\<rparr>,
                     pub\<lparr>pub_dashboard :=
                           Some (computeDashboard activeSt paid (p_leftStudents p)
                                   (map_option
                                      (\<lambda>st. monthlyAttQuery (startOfMonth (p_selectedMonth p))
                                              (endOfMonth tz (p_selectedMonth p))
                                              (attendance_tbl st))
                                      answer))\<rparr>,
                     Some DashboardView)))
      | Finished \<Rightarrow> (p, pub, None)
      | Thrown e \<Rightarrow> (p, pub, None))"

text \<open>
  fetchData run alone: one pass resumed with the six answers in turn, nothing in
  between. The result is the published state when the pass has ended, and the error
  with which the call was rejected, if it was.
\<close>

fun run_pass :: "zone \<Rightarrow> Store option list \<Rightarrow> Pass \<Rightarrow> Published \<Rightarrow> Pass \<times> Published" where
  "run_pass tz [] p pub = (p, pub)"
| "run_pass tz (a # answers) p pub =
     (case resume tz a p pub of (p', pub', v) \<Rightarrow> run_pass tz answers p' pub')"

definition fetchData ::
  "zone \<Rightarrow> month \<Rightarrow> date \<Rightarrow> Store option list \<Rightarrow> Published \<Rightarrow> Published \<times> js_error option"
where
  "fetchData tz selectedMonth attendanceDate answers pub =
     (case run_pass tz answers (start_pass selectedMonth attendanceDate) pub of
        (p, pub') \<Rightarrow> (pub', (case p_pc p of Thrown e \<Rightarrow> Some e | _ \<Rightarrow> None)))"

definition ex_pub :: Published where
  "ex_pub =
     \<lparr>pub_students = students_tbl ex_store, pub_attendance = [],
      pub_dashboard = Some (reconcile utc (2024, 1) ex_store)\<rparr>"

text \<open>
  The reconciliation loop. The page holds the store's current contents (seen only
  through queries), the selected month and attendance date, the published state and the
  passes in flight. Events: the user selects a month or a date (the effect of lines
  252-276 runs again and calls fetchData), a change notification or a completed write
  calls fetchData for the current selection, the store's contents change, or the answer
  to the pending query of pass \<open>i\<close> arrives (computed on the store as it is then, or
  failing). Nothing in the source cancels a pass or makes one wait for another.
  \<open>sys_writer\<close> records, for each view, the pass that set it last; the source has no
  such record, it only names which pass published a view.
\<close>

record Sys =
  sys_store :: Store
  sys_selectedMonth :: month
  sys_attendanceDate :: date
  sys_pub :: Published
  sys_passes :: "Pass list"
  sys_writer :: "view \<Rightarrow> nat option"

datatype event = SelectMonth month | SelectDate date | Notify | Mutate Store | Resume nat bool

definition step :: "zone \<Rightarrow> Sys \<Rightarrow> event \<Rightarrow> Sys" where
  "step tz s e =
     (case e of
        SelectMonth M \<Rightarrow>
          s\<lparr>sys_selectedMonth := M,
            sys_passes := sys_passes s @ [start_pass M (sys_attendanceDate s)]\<rparr>
      | SelectDate D \<Rightarrow>
          s\<lparr>sys_attendanceDate := D,
            sys_passes := sys_passes s @ [start_pass (sys_selectedMonth s) D]\<rparr>
      | Notify \<Rightarrow>
          s\<lparr>sys_passes :=
              sys_passes s @ [start_pass (sys_selectedMonth s) (sys_attendanceDate s)]\<rparr>
      | Mutate st \<Rightarrow> s\<lparr>sys_store := st\<rparr>
      | Resume i ok \<Rightarrow>
          (if i < length (sys_passes s)
           then (case resume tz (if ok then Some (sys_store s) else None)
                        (sys_passes s ! i) (sys_pub s) of
                   (p', pub', v) \<Rightarrow>
                     s\<lparr>sys_pub := pub',
                       sys_passes := (sys_passes s)[i := p'],
                       sys_writer :=
                         (case v of
                            None \<Rightarrow> sys_writer s
                          | Some w \<Rightarrow> (sys_writer s)(w := Some i))\<rparr>)
           else s))"

definition run :: "zone \<Rightarrow> event list \<Rightarrow> Sys \<Rightarrow> Sys" where
  "run tz evs s = foldl (step tz) s evs"

definition init_sys :: "Store \<Rightarrow> month \<Rightarrow> date \<Rightarrow> Sys" where
  "init_sys st selectedMonth attendanceDate =
     \<lparr>sys_store = st, sys_selectedMonth = selectedMonth, sys_attendanceDate = attendanceDate,
      sys_pub = \<lparr>pub_students = [], pub_attendance = [], pub_dashboard = None\<rparr>,
      sys_passes = [], sys_writer = (\<lambda>v. None)\<rparr>"

text \<open>The filter of the active-students query, for a student.\<close>

definition active_in :: "zone \<Rightarrow> month \<Rightarrow> Student \<Rightarrow> bool" where
  "active_in tz M s =
     (date_le (s_admission_date s) (endOfMonth tz M) \<and>
      (s_status s = Active \<or>
       (case s_leaving_date s of None \<Rightarrow> False | Some l \<Rightarrow> date_le (startOfMonth M) l)))"

text \<open>A dashboard all of whose rows belong to one month, as the queries of that month select them.\<close>

definition for_month :: "zone \<Rightarrow> month \<Rightarrow> DashboardData \<Rightarrow> bool" where
  "for_month tz M d =
     ((\<forall>f \<in> set (paidFees d). f_fee_month f = M) \<and>
      (\<forall>s \<in> set (unpaidStudents d). active_in tz M s) \<and>
      (\<forall>a \<in> set (monthlyAttendance d).
         date_le (startOfMonth M) (a_attendance_date a) \<and>
         date_le (a_attendance_date a) (endOfMonth tz M)))"

text \<open>
  What a pass holds in its constants: each is the answer to its query for the pass's
  month, on the store as it was when the query was answered; past lines 198-199 the
  month is a valid one.
\<close>

definition pass_inv :: "zone \<Rightarrow> Pass \<Rightarrow> bool" where
  "pass_inv tz p =
     ((\<forall>a. p_activeStudents p = Some a \<longrightarrow>
          (\<exists>st :: Store. a = activeStudents tz (p_selectedMonth p) (students_tbl st))) \<and>
      (\<forall>fs. p_paidFees p = Some fs \<longrightarrow> (\<exists>st :: Store. fs = paidFeesQuery (p_selectedMonth p) st)) \<and>
      (\<forall>l. p_leftStudents p = Some l \<longrightarrow>
          (\<exists>st :: Store. l = leftStudentsQuery (startOfMonth (p_selectedMonth p))
                      (endOfMonth tz (p_selectedMonth p)) (students_tbl st))) \<and>
      (p_pc p \<in> {AwaitActive, AwaitPaid, AwaitLeft, AwaitMonthly, Finished} \<longrightarrow>
         valid_month (p_selectedMonth p)))"

text \<open>
  The dashboard \<open>d\<close> is the one that the pass \<open>p\<close> built at its end: from the active
  students and fee rows it holds, its count of left students, and the answer to its
  monthly attendance query (none when that query failed).
\<close>

definition written_by :: "zone \<Rightarrow> Pass \<Rightarrow> DashboardData \<Rightarrow> bool" where
  "written_by tz p d =
     (p_pc p = Finished \<and>
      (\<exists>a fs m. p_activeStudents p = Some a \<and> p_paidFees p = Some fs \<and>
         d = computeDashboard a fs (p_leftStudents p) m \<and>
         (m = None \<or>
          (\<exists>st :: Store. m = Some (monthlyAttQuery (startOfMonth (p_selectedMonth p))
                           (endOfMonth tz (p_selectedMonth p)) (attendance_tbl st))))))"

definition dashboard_of_one_pass :: "zone \<Rightarrow> Sys \<Rightarrow> bool" where
  "dashboard_of_one_pass tz s =
     (\<forall>d. pub_dashboard (sys_pub s) = Some d \<longrightarrow>
          (\<exists>i. sys_writer s DashboardView = Some i \<and>
               i < length (sys_passes s) \<and>
               written_by tz (sys_passes s ! i) d))"

definition sys_inv :: "zone \<Rightarrow> Sys \<Rightarrow> bool" where
  "sys_inv tz s = ((\<forall>p \<in> set (sys_passes s). pass_inv tz p) \<and> dashboard_of_one_pass tz s)"

definition ex_store_feb :: Store where
  "ex_store_feb =
     \<lparr>students_tbl =
        [ex_student 1 ''Asha'', ex_student 2 ''Bina'',
         (ex_student 3 ''Chitra'')\<lparr>s_admission_date := (2024, 2, 1)\<rparr>],
      fees_tbl =
        [ex_fee 1 1 500 Cash, ex_fee 2 1 300 Online,
         (ex_fee 3 3 700 Cash)\<lparr>f_fee_month := (2024, 2)\<rparr>],
      attendance_tbl = [ex_att 1 10 Present]\<rparr>"

text \<open>
  A pass for January is one answer short of its end when the store changes and the user
  selects February; the February pass runs to its end; then the last answer of the
  January pass arrives.
\<close>

definition ex_events :: "event list" where
  "ex_events =
     [Notify,
      Resume 0 True, Resume 0 True, Resume 0 True, Resume 0 True, Resume 0 True,
      Mutate ex_store_feb,
      SelectMonth (2024, 2),
      Resume 1 True, Resume 1 True, Resume 1 True, Resume 1 True, Resume 1 True, Resume 1 True,
      Resume 0 True]"

definition ex_final :: Sys where
  "ex_final = run utc ex_events (init_sys ex_store (2024, 1) ex_day)"

section \<open>Report export of the earlier variant\<close>

text \<open>
  The earlier variant of the page (src/unnamed/part_000, lines 311-329) exports only the
  fees, without class filter, and reads \<^verbatim>\<open>f.student.full_name\<close> directly: a fee
  row without embedded student raises a TypeError and nothing is exported.
\<close>

definition fee_row_v0 :: "PaidFee \<Rightarrow> js_error + string list" where
  "fee_row_v0 f =
     (case student f of
        None \<Rightarrow> Inl TypeError
      | Some r \<Rightarrow>
          Inr [r_full_name r,
               String_int (f_amount f),
               f_paid_date f,
               payment_mode_str (f_payment_mode f),
               (case f_payment_reference f of None \<Rightarrow> [] | Some p \<Rightarrow> p)])"

fun rows_v0 :: "PaidFee list \<Rightarrow> js_error + string list list" where
  "rows_v0 [] = Inr []"
| "rows_v0 (f # fs) =
     (case fee_row_v0 f of
        Inl e \<Rightarrow> Inl e
      | Inr r \<Rightarrow> (case rows_v0 fs of Inl e \<Rightarrow> Inl e | Inr rs \<Rightarrow> Inr (r # rs)))"

definition exportCSV_v0 :: "DashboardData option \<Rightarrow> (js_error + string) option" where
  "exportCSV_v0 dashboard =
     (case dashboard of
        None \<Rightarrow> None
      | Some d \<Rightarrow>
          Some (case rows_v0 (paidFees d) of
                  Inl e \<Rightarrow> Inl e
                | Inr rows \<Rightarrow> Inr (csvContent fee_headers rows)))"

section \<open>Active-student set\<close>

lemma MakeDay_day_zero: "MakeDay y mi 0 = prev_day (y + mi div 12, nat (mi mod 12) + 1, 1)"
  by (simp add: MakeDay_def shift_days_def)

lemma MakeDay_next_month:
  assumes "1 \<le> m" and "m \<le> 12"
  shows "MakeDay y (int m - 1 + 1) 0 = last_day_of_month (y, m)"
proof (cases "m = 12")
  case True
  then show ?thesis
    by (simp add: MakeDay_day_zero prev_day_def last_day_of_month_def days_in_month_def)
next
  case False
  with assms have "int m div 12 = 0" and "int m mod 12 = int m" by simp_all
  then show ?thesis
    using assms by (simp add: MakeDay_day_zero prev_day_def last_day_of_month_def)
qed

lemma MakeDay_this_month:
  assumes "1 \<le> m" and "m \<le> 12"
  shows "MakeDay (fst (prev_day (y, m, 1))) (int (fst (snd (prev_day (y, m, 1)))) - 1 + 1) 0 =
           prev_day (y, m, 1)"
proof (cases "m = 1")
  case True
  then show ?thesis
    by (simp add: MakeDay_day_zero prev_day_def)
next
  case False
  with assms have m2: "2 \<le> m" by simp
  have "int m - 1 < 12" and "0 \<le> int m - 1" using assms by simp_all
  then have d: "(int m - 1) div 12 = 0" and r: "(int m - 1) mod 12 = int m - 1"
    by simp_all
  have n: "nat (int m - 1) + 1 = m" using assms by simp
  have p: "prev_day (y, m, 1) = (y, m - 1, days_in_month y (m - 1))"
    using m2 by (simp add: prev_day_def)
  have i: "int (m - 1) - 1 + 1 = int m - 1" using m2 by simp
  show ?thesis
    unfolding p fst_conv snd_conv i MakeDay_day_zero d r n
    using p by simp
qed

text \<open>
  What line 199 computes, by the offset \<open>o1\<close> in force at UTC midnight of the first of
  the month and the offset \<open>o2\<close> in force at the local midnight the inner
  \<^verbatim>\<open>new Date(y, m + 1, 0)\<close> denotes.
\<close>

lemma endOfMonth_not_west:
  assumes m: "1 \<le> m" "m \<le> 12" and y: "y < 0 \<or> 99 < y"
    and o1: "0 \<le> tz True (Date_parse (startOfMonth (y, m)))"
            "tz True (Date_parse (startOfMonth (y, m))) < 1440"
    and o2: "- 1440 < tz False (last_day_of_month (y, m), 0)"
            "tz False (last_day_of_month (y, m), 0) < 1440"
  shows "endOfMonth tz (y, m) =
           (if 0 < tz False (last_day_of_month (y, m), 0)
            then prev_day (last_day_of_month (y, m)) else last_day_of_month (y, m))"
proof -
  have loc: "fst (shift_minutes (tz True (Date_parse (startOfMonth (y, m))))
                  (Date_parse (startOfMonth (y, m)))) = (y, m, 1)"
    using o1 by (simp add: shift_minutes_def Date_parse_def startOfMonth_def)
  have gy: "getFullYear tz (Date_parse (startOfMonth (y, m))) = y"
    unfolding getFullYear_def loc by simp
  have gm: "getMonth tz (Date_parse (startOfMonth (y, m))) = int m - 1"
    unfolding getMonth_def loc by simp
  have yr: "(if 0 \<le> y \<and> y \<le> 99 then 1900 + y else y) = y"
    using y by auto
  have ret: "fst (shift_minutes (- k) (d, 0)) = (if 0 < k then prev_day d else d)"
    if "- 1440 < k" and "k < 1440" for k d
    using that by (simp add: shift_minutes_def)
  show ?thesis
    unfolding endOfMonth_def gy gm Date_local_def yr MakeDay_next_month [OF m] Let_def
      toISOString_date_def
    by (rule ret [OF o2])
qed

lemma endOfMonth_west_zone:
  assumes m: "1 \<le> m" "m \<le> 12" and y: "y < 0 \<or> 100 < y"
    and o1: "tz True (Date_parse (startOfMonth (y, m))) < 0"
            "- 1440 < tz True (Date_parse (startOfMonth (y, m)))"
    and o2: "- 1440 < tz False (prev_day (startOfMonth (y, m)), 0)"
            "tz False (prev_day (startOfMonth (y, m)), 0) < 1440"
  shows "endOfMonth tz (y, m) =
           (if 0 < tz False (prev_day (startOfMonth (y, m)), 0)
            then prev_day (prev_day (startOfMonth (y, m))) else prev_day (startOfMonth (y, m)))"
proof -
  have s: "startOfMonth (y, m) = (y, m, 1)"
    by (simp add: startOfMonth_def)
  have loc: "fst (shift_minutes (tz True (Date_parse (startOfMonth (y, m))))
                  (Date_parse (startOfMonth (y, m)))) = prev_day (y, m, 1)"
    using o1 by (simp add: shift_minutes_def Date_parse_def startOfMonth_def)
  have gy: "getFullYear tz (Date_parse (startOfMonth (y, m))) = fst (prev_day (y, m, 1))"
    unfolding getFullYear_def loc by simp
  have gm: "getMonth tz (Date_parse (startOfMonth (y, m))) =
              int (fst (snd (prev_day (y, m, 1)))) - 1"
    unfolding getMonth_def loc by simp
  have "fst (prev_day (y, m, 1)) = y \<or> fst (prev_day (y, m, 1)) = y - 1"
    by (simp add: prev_day_def)
  then have yr: "(if 0 \<le> fst (prev_day (y, m, 1)) \<and> fst (prev_day (y, m, 1)) \<le> 99
                  then 1900 + fst (prev_day (y, m, 1)) else fst (prev_day (y, m, 1))) =
                 fst (prev_day (y, m, 1))"
    using y by auto
  have ret: "fst (shift_minutes (- k) (d, 0)) = (if 0 < k then prev_day d else d)"
    if "- 1440 < k" and "k < 1440" for k d
    using that by (simp add: shift_minutes_def)
  have "endOfMonth tz (y, m) =
          fst (shift_minutes (- tz False (prev_day (y, m, 1), 0)) (prev_day (y, m, 1), 0))"
    unfolding endOfMonth_def gy gm Date_local_def yr MakeDay_this_month [OF m] Let_def
      toISOString_date_def ..
  also have "\<dots> = (if 0 < tz False (prev_day (y, m, 1), 0)
                     then prev_day (prev_day (y, m, 1)) else prev_day (y, m, 1))"
    by (rule ret [OF o2 [unfolded s]])
  finally show ?thesis
    unfolding s .
qed

lemma endOfMonth_utc:
  assumes "1 \<le> m" and "m \<le> 12" and "y < 0 \<or> 99 < y"
  shows "endOfMonth utc (y, m) = last_day_of_month (y, m)"
  using endOfMonth_not_west [OF assms, of utc] by (simp add: fixed_zone_def)

lemma endOfMonth_east:
  assumes "1 \<le> m" and "m \<le> 12" and "y < 0 \<or> 99 < y" and "0 < k" and "k < 1440"
  shows "endOfMonth (fixed_zone k) (y, m) = prev_day (last_day_of_month (y, m))"
  using endOfMonth_not_west [OF assms(1-3), of "fixed_zone k"] assms(4,5)
  by (simp add: fixed_zone_def)

lemma endOfMonth_west:
  assumes "1 \<le> m" and "m \<le> 12" and "y < 0 \<or> 100 < y" and "k < 0" and "- 1440 < k"
  shows "endOfMonth (fixed_zone k) (y, m) = prev_day (startOfMonth (y, m))"
  using endOfMonth_west_zone [OF assms(1-3), of "fixed_zone k"] assms(4,5)
  by (simp add: fixed_zone_def)

text \<open>
  With daylight saving the two offsets differ: in a zone one hour east of UTC on the
  1st of October and on UTC at the end of the month, the bound of October is right.
\<close>

lemma endOfMonth_daylight_saving:
  assumes "tz True (Date_parse (startOfMonth (2024, 10))) = 60"
    and "tz False (last_day_of_month (2024, 10), 0) = 0"
  shows "endOfMonth tz (2024, 10) = (2024, 10, 31)"
proof -
  have "endOfMonth tz (2024, 10) = last_day_of_month (2024, 10)"
    using endOfMonth_not_west [of 10 2024 tz] assms by simp
  then show ?thesis
    by (simp add: last_day_of_month_def days_in_month_def)
qed

lemma activeStudentsQuery_iff:
  "s \<in> set (activeStudentsQuery som eom tbl) \<longleftrightarrow>
     s \<in> set tbl \<and> date_le (s_admission_date s) eom \<and>
     (s_status s = Active \<or>
      (s_status s = Left \<and> (\<exists>l. s_leaving_date s = Some l \<and> date_le som l)))"
  by (cases "s_status s") (auto simp: activeStudentsQuery_def split: option.splits)

lemma activeStudents_utc_iff:
  assumes "1 \<le> snd M" and "snd M \<le> 12" and "fst M < 0 \<or> 99 < fst M"
  shows "s \<in> set (activeStudents utc M tbl) \<longleftrightarrow>
     s \<in> set tbl \<and> date_le (s_admission_date s) (last_day_of_month M) \<and>
     (s_status s = Active \<or>
      (s_status s = Left \<and> (\<exists>l. s_leaving_date s = Some l \<and> date_le (startOfMonth M) l)))"
proof -
  obtain y m where M: "M = (y, m)" by (cases M)
  show ?thesis
    using assms unfolding M activeStudents_def activeStudentsQuery_iff
    by (simp add: endOfMonth_utc)
qed

text \<open>
  C1. The active set for a month M should hold exactly the students with
  admission date at most the last day of M who are Active, or Left with a leaving date
  from the first day of M on. The store's filter is that predicate
  (\<open>activeStudentsQuery_iff\<close>), and with a host clock in UTC the upper bound is the last
  day of M (\<open>activeStudents_utc_iff\<close>). On a host east of UTC the bound that line 199
  computes is one day short (\<open>endOfMonth_east\<close>): at UTC+05:30 and month 2024-01 the
  bound is 2024-01-30, and a student admitted on 2024-01-31, still Active, is left out of
  the active set although the admission date is within January.
\<close>

theorem C1_active_set_misses_last_day:
  "endOfMonth ist (2024, 1) = (2024, 1, 30) \<and>
   last_day_of_month (2024, 1) = (2024, 1, 31) \<and>
   date_le (2024, 1, 31) (last_day_of_month (2024, 1)) \<and>
   activeStudents ist (2024, 1)
     [\<lparr>s_id = 7, s_full_name = ''Asha'', s_class_grade = ''8'',
        s_admission_date = (2024, 1, 31), s_status = Active, s_leaving_date = None\<rparr>] = []"
proof -
  have e: "endOfMonth ist (2024, 1) = prev_day (last_day_of_month (2024, 1))"
    by (rule endOfMonth_east) simp_all
  have l: "last_day_of_month (2024, 1) = (2024, 1, 31)"
    by (simp add: last_day_of_month_def days_in_month_def)
  have p: "prev_day (2024, 1, 31) = (2024, 1, 30)"
    by (simp add: prev_day_def)
  have a: "activeStudentsQuery (startOfMonth (2024, 1)) (2024, 1, 30)
     [\<lparr>s_id = 7, s_full_name = ''Asha'', s_class_grade = ''8'',
        s_admission_date = (2024, 1, 31), s_status = Active, s_leaving_date = None\<rparr>] = []"
    by (simp add: activeStudentsQuery_def date_le_def)
  have d: "date_le (2024, 1, 31) (2024, 1, 31)"
    by (simp add: date_le_def)
  show ?thesis
    unfolding activeStudents_def e l p using a d by simp
qed

section \<open>Sums and sets\<close>

declare bit_length.simps [simp del]

lemma to_number_safe:
  assumes "\<bar>x\<bar> \<le> 2 ^ 53"
  shows "to_number x = Num x"
proof -
  have r: "round_double x = x"
    using assms by (simp add: round_double_def)
  have "(2::int) ^ 53 < 2 ^ 1024"
    by (rule power_strict_increasing) simp_all
  with assms have "x < 2 ^ 1024" and "- (2 ^ 1024) < x"
    by linarith+
  then show ?thesis
    unfolding to_number_def r by simp
qed

lemma sum_amount_acc:
  assumes "\<bar>a\<bar> + sum_list (map (\<lambda>f. \<bar>f_amount f\<bar>) xs) \<le> 2 ^ 53"
  shows "foldl (\<lambda>sum f. js_add sum (to_number (f_amount f))) (Num a) xs =
           Num (a + sum_list (map f_amount xs))"
  using assms
proof (induction xs arbitrary: a)
  case Nil
  show ?case by simp
next
  case (Cons x xs)
  have nonneg: "0 \<le> sum_list (map (\<lambda>f. \<bar>f_amount f\<bar>) xs)"
    by (rule sum_list_nonneg) auto
  from Cons.prems nonneg have x: "\<bar>f_amount x\<bar> \<le> 2 ^ 53" and ax: "\<bar>a + f_amount x\<bar> \<le> 2 ^ 53"
    by simp_all
  have step: "js_add (Num a) (to_number (f_amount x)) = Num (a + f_amount x)"
    by (simp add: to_number_safe [OF x] to_number_safe [OF ax])
  have "\<bar>a + f_amount x\<bar> + sum_list (map (\<lambda>f. \<bar>f_amount f\<bar>) xs) \<le> 2 ^ 53"
    using Cons.prems by simp
  from Cons.IH [OF this] show ?case
    by (simp add: step add.assoc)
qed

lemma sum_amount_sum_list:
  assumes "safe_amounts (map f_amount xs)"
  shows "sum_amount xs = Num (sum_list (map f_amount xs))"
  using sum_amount_acc [of 0 xs] assms
  by (simp add: sum_amount_def safe_amounts_def comp_def)

lemma safe_amounts_filter:
  assumes "safe_amounts (map f_amount xs)"
  shows "safe_amounts (map f_amount (filter P xs))"
proof -
  have "sum_list (map (\<lambda>f. \<bar>f_amount f\<bar>) (filter P xs)) \<le> sum_list (map (\<lambda>f. \<bar>f_amount f\<bar>) xs)"
    by (induction xs) (simp_all add: add_increasing)
  with assms show ?thesis
    by (simp add: safe_amounts_def comp_def)
qed

lemma abs_sum_list_le: "\<bar>sum_list (xs::int list)\<bar> \<le> sum_list (map abs xs)"
  by (induction xs) auto

lemma Set_new_acc:
  "distinct s \<Longrightarrow> distinct (foldl (\<lambda>s x. Set_add x s) s xs) \<and>
     set (foldl (\<lambda>s x. Set_add x s) s xs) = set s \<union> set xs"
  by (induction xs arbitrary: s) (auto simp: Set_add_def)

lemma distinct_Set_new: "distinct (Set_new xs)"
  using Set_new_acc [of "[]" xs] by (simp add: Set_new_def)

lemma set_Set_new: "set (Set_new xs) = set xs"
  using Set_new_acc [of "[]" xs] by (simp add: Set_new_def)

lemma count_list_distinct: "distinct xs \<Longrightarrow> x \<in> set xs \<Longrightarrow> count_list xs x = 1"
  by (induction xs) auto

lemma embed_student_fields:
  "f_student_id (embed_student tbl f) = f_student_id f"
  "f_amount (embed_student tbl f) = f_amount f"
  "f_payment_mode (embed_student tbl f) = f_payment_mode f"
  "f_fee_month (embed_student tbl f) = f_fee_month f"
  by (simp_all add: embed_student_def)

lemma paidFeesQuery_ids:
  "map f_student_id (paidFeesQuery M st) = map f_student_id (filter (\<lambda>f. f_fee_month f = M) (fees_tbl st))"
  by (simp add: paidFeesQuery_def embed_student_fields comp_def)

lemma paidFeesQuery_amounts:
  "map f_amount (paidFeesQuery M st) = map f_amount (filter (\<lambda>f. f_fee_month f = M) (fees_tbl st))"
  by (simp add: paidFeesQuery_def embed_student_fields comp_def)

section \<open>Fee reconciliation: paid and unpaid, totals, counts\<close>

lemma paid_ids_of_month:
  assumes "f \<in> set (fees_tbl st)" and "f_fee_month f = M"
  shows "f_student_id f \<in> set (paidStudentIds (paidFeesQuery M st))"
proof -
  have "f_student_id f \<in> set (map f_student_id (paidFeesQuery M st))"
    unfolding paidFeesQuery_ids using assms by auto
  then show ?thesis
    by (simp add: paidStudentIds_def set_Set_new)
qed

lemma paidFees_ex_store_big:
  "paidFeesQuery (2024, 1) ex_store_big =
     [embed_student (students_tbl ex_store_big) (ex_fee 1 1 (2 ^ 53) Cash),
      embed_student (students_tbl ex_store_big) (ex_fee 2 1 1 Online),
      embed_student (students_tbl ex_store_big) (ex_fee 3 1 1 Online)]"
  by (simp add: paidFeesQuery_def ex_store_big_def ex_fee_def)

lemma bit_length_above_2_53:
  "bit_length 9007199254740993 = 54" "bit_length 9007199254740994 = 54"
  by (simp_all add: bit_length.simps)

lemma to_number_past_2_53:
  "to_number 9007199254740993 = Num 9007199254740992"
  "to_number 9007199254740994 = Num 9007199254740994"
  by (simp_all add: to_number_def round_double_def bit_length_above_2_53 Let_def)

lemma js_add_past_2_53:
  "js_add (Num 9007199254740992) (Num 1) = Num 9007199254740992"
  "js_add (Num 9007199254740992) (Num 2) = Num 9007199254740994"
  by (simp_all add: to_number_past_2_53)

lemma sums_ex_store_big:
  "sum_amount (paidFeesQuery (2024, 1) ex_store_big) = Num 9007199254740992"
  "sum_amount (filter (\<lambda>f. f_payment_mode f = Cash) (paidFeesQuery (2024, 1) ex_store_big)) =
     Num 9007199254740992"
  "sum_amount (filter (\<lambda>f. f_payment_mode f = Online) (paidFeesQuery (2024, 1) ex_store_big)) =
     Num 2"
  unfolding paidFees_ex_store_big
  by (simp_all add: sum_amount_def embed_student_def ex_fee_def to_number_safe
      to_number_past_2_53)

text \<open>
  C2 as claimed (totalCollected sums the amounts of all rows, for every fee
  snapshot) fails past the integers that a double holds: for rows of \<open>2 ^ 53\<close>, 1 and 1
  the running sum stays at \<open>2 ^ 53\<close> = 9007199254740992, two short of the sum.
\<close>

theorem C2_total_rounds_past_2_53_counterexample:
  "totalCollected (reconcile utc (2024, 1) ex_store_big) = Num 9007199254740992 \<and>
   sum_list (map f_amount (filter (\<lambda>g. f_fee_month g = (2024, 1)) (fees_tbl ex_store_big))) =
     9007199254740994"
proof -
  have "totalCollected (reconcile utc (2024, 1) ex_store_big) = Num 9007199254740992"
    by (simp only: reconcile_def computeDashboard_def sums_ex_store_big
        DashboardData.simps)
  moreover have "sum_list (map f_amount
      (filter (\<lambda>g. f_fee_month g = (2024, 1)) (fees_tbl ex_store_big))) = 9007199254740994"
    by (simp add: ex_store_big_def ex_fee_def)
  ultimately show ?thesis by blast
qed

text \<open>
  C2, amended. A student with at least one payment row for the period is never
  among unpaidStudents, however many rows there are, and the paid set holds the student
  exactly once; totalCollected is the sum of the amounts of all rows of the period when
  the absolute amounts of those rows add up to at most \<open>2 ^ 53\<close>. The witness is the
  scenario of two rows of 500 and 300 for one student: the total is 800.
\<close>

theorem C2_paid_once_total_all_rows:
  assumes "f \<in> set (fees_tbl st)" and "f_fee_month f = M"
  shows "f_student_id f \<notin> s_id ` set (unpaidStudents (reconcile tz M st)) \<and>
         count_list (paidStudentIds (paidFees (reconcile tz M st))) (f_student_id f) = 1 \<and>
         (safe_amounts (map f_amount (filter (\<lambda>g. f_fee_month g = M) (fees_tbl st))) \<longrightarrow>
          totalCollected (reconcile tz M st) =
            Num (sum_list (map f_amount (filter (\<lambda>g. f_fee_month g = M) (fees_tbl st)))))"
proof -
  note has = paid_ids_of_month [OF assms]
  have a: "f_student_id f \<notin> s_id ` set (unpaidStudents (reconcile tz M st))"
    using has by (auto simp: reconcile_def computeDashboard_def Set_has_def)
  have b: "totalCollected (reconcile tz M st) =
           Num (sum_list (map f_amount (filter (\<lambda>g. f_fee_month g = M) (fees_tbl st))))"
    if "safe_amounts (map f_amount (filter (\<lambda>g. f_fee_month g = M) (fees_tbl st)))"
  proof -
    from that have "safe_amounts (map f_amount (paidFeesQuery M st))"
      by (simp only: paidFeesQuery_amounts)
    from sum_amount_sum_list [OF this] show ?thesis
      by (simp add: reconcile_def computeDashboard_def paidFeesQuery_amounts)
  qed
  have c: "count_list (paidStudentIds (paidFees (reconcile tz M st))) (f_student_id f) = 1"
    using has
    by (simp add: reconcile_def computeDashboard_def count_list_distinct paidStudentIds_def
        distinct_Set_new)
  from a b c show ?thesis by blast
qed

theorem C2_two_rows_500_300_witness:
  "length (filter (\<lambda>g. f_fee_month g = (2024, 1) \<and> f_student_id g = 1) (fees_tbl ex_store)) = 2 \<and>
   safe_amounts (map f_amount (filter (\<lambda>g. f_fee_month g = (2024, 1)) (fees_tbl ex_store))) \<and>
   1 \<notin> s_id ` set (unpaidStudents (reconcile utc (2024, 1) ex_store)) \<and>
   totalCollected (reconcile utc (2024, 1) ex_store) = Num 800 \<and>
   count_list (paidStudentIds (paidFees (reconcile utc (2024, 1) ex_store))) 1 = 1"
  using C2_paid_once_total_all_rows [of "ex_fee 1 1 500 Cash" ex_store "(2024, 1)" utc]
  by (simp add: ex_store_def ex_fee_def safe_amounts_def)

lemma cash_online_split:
  "sum_list (map f_amount (filter (\<lambda>f. f_payment_mode f = Cash) xs)) +
   sum_list (map f_amount (filter (\<lambda>f. f_payment_mode f = Online) xs)) =
   sum_list (map f_amount xs)"
proof (induction xs)
  case Nil
  show ?case by simp
next
  case (Cons x xs)
  then show ?case by (cases "f_payment_mode x") simp_all
qed

lemma cash_online_rows:
  "length (filter (\<lambda>f. f_payment_mode f = Cash) xs) +
   length (filter (\<lambda>f. f_payment_mode f = Online) xs) = length xs"
proof (induction xs)
  case Nil
  show ?case by simp
next
  case (Cons x xs)
  then show ?case by (cases "f_payment_mode x") simp_all
qed

text \<open>
  C3 as claimed (cashCollected plus onlineCollected is totalCollected for all
  inputs) fails past the integers that a double holds: for a Cash row of \<open>2 ^ 53\<close> and
  two Online rows of 1 the channel sums are \<open>2 ^ 53\<close> and 2 and add up to
  9007199254740994, while the running total stays at 9007199254740992.
\<close>

theorem C3_channels_exceed_total_counterexample:
  "cashCollected (reconcile utc (2024, 1) ex_store_big) = Num 9007199254740992 \<and>
   onlineCollected (reconcile utc (2024, 1) ex_store_big) = Num 2 \<and>
   js_add (cashCollected (reconcile utc (2024, 1) ex_store_big))
          (onlineCollected (reconcile utc (2024, 1) ex_store_big)) = Num 9007199254740994 \<and>
   totalCollected (reconcile utc (2024, 1) ex_store_big) = Num 9007199254740992"
  by (simp only: reconcile_def computeDashboard_def sums_ex_store_big DashboardData.simps
      js_add_past_2_53 simp_thms)

text \<open>
  C3, amended. In every dashboard value that fetchData builds from payment rows
  whose absolute amounts add up to at most \<open>2 ^ 53\<close>, cashCollected is the sum of the
  amounts of the Cash rows, onlineCollected that of the Online rows, totalCollected that
  of all rows, and cashCollected plus onlineCollected is totalCollected: a payment mode
  is Cash or Online, so the two filters split the rows.
\<close>

theorem C3_cash_plus_online_is_total:
  assumes "safe_amounts (map f_amount paid)"
  shows
    "cashCollected (computeDashboard activeSt paid leftSt monthlyAtt) =
       Num (sum_list (map f_amount (filter (\<lambda>f. f_payment_mode f = Cash) paid))) \<and>
     onlineCollected (computeDashboard activeSt paid leftSt monthlyAtt) =
       Num (sum_list (map f_amount (filter (\<lambda>f. f_payment_mode f = Online) paid))) \<and>
     totalCollected (computeDashboard activeSt paid leftSt monthlyAtt) =
       Num (sum_list (map f_amount paid)) \<and>
     js_add (cashCollected (computeDashboard activeSt paid leftSt monthlyAtt))
            (onlineCollected (computeDashboard activeSt paid leftSt monthlyAtt)) =
       totalCollected (computeDashboard activeSt paid leftSt monthlyAtt) \<and>
     length (filter (\<lambda>f. f_payment_mode f = Cash) paid) +
       length (filter (\<lambda>f. f_payment_mode f = Online) paid) = length paid"
proof -
  let ?c = "filter (\<lambda>f. f_payment_mode f = Cash) paid"
  let ?o = "filter (\<lambda>f. f_payment_mode f = Online) paid"
  have c: "sum_amount ?c = Num (sum_list (map f_amount ?c))"
    by (rule sum_amount_sum_list) (rule safe_amounts_filter [OF assms])
  have o: "sum_amount ?o = Num (sum_list (map f_amount ?o))"
    by (rule sum_amount_sum_list) (rule safe_amounts_filter [OF assms])
  have t: "sum_amount paid = Num (sum_list (map f_amount paid))"
    by (rule sum_amount_sum_list) (rule assms)
  have "\<bar>sum_list (map f_amount paid)\<bar> \<le> 2 ^ 53"
    using abs_sum_list_le [of "map f_amount paid"] assms
    by (simp add: safe_amounts_def)
  then have "to_number (sum_list (map f_amount ?c) + sum_list (map f_amount ?o)) =
      Num (sum_list (map f_amount paid))"
    unfolding cash_online_split by (rule to_number_safe)
  then have add: "js_add (sum_amount ?c) (sum_amount ?o) = sum_amount paid"
    unfolding c o t by simp
  show ?thesis
    using c o t add cash_online_rows [of paid]
    by (simp add: computeDashboard_def)
qed

theorem C3_cash_500_online_300_witness:
  "safe_amounts (map f_amount (paidFeesQuery (2024, 1) ex_store)) \<and>
   cashCollected (reconcile utc (2024, 1) ex_store) = Num 500 \<and>
   onlineCollected (reconcile utc (2024, 1) ex_store) = Num 300 \<and>
   totalCollected (reconcile utc (2024, 1) ex_store) = Num 800 \<and>
   js_add (Num 500) (Num 300) = Num 800"
proof -
  have rows: "map f_amount (paidFeesQuery (2024, 1) ex_store) = [500, 300]"
    unfolding paidFeesQuery_amounts by (simp add: ex_store_def ex_fee_def)
  have safe: "safe_amounts (map f_amount (paidFeesQuery (2024, 1) ex_store))"
    unfolding rows by (simp add: safe_amounts_def)
  have cash: "map f_amount (filter (\<lambda>f. f_payment_mode f = Cash) (paidFeesQuery (2024, 1) ex_store)) = [500]"
    by (simp add: paidFeesQuery_def embed_student_def ex_store_def ex_fee_def)
  have online: "map f_amount (filter (\<lambda>f. f_payment_mode f = Online) (paidFeesQuery (2024, 1) ex_store)) = [300]"
    by (simp add: paidFeesQuery_def embed_student_def ex_store_def ex_fee_def)
  note c3 = C3_cash_plus_online_is_total [OF safe,
      of "activeStudents utc (2024, 1) (students_tbl ex_store)"
         "Some (leftStudentsQuery (startOfMonth (2024, 1)) (endOfMonth utc (2024, 1)) (students_tbl ex_store))"
         "Some (monthlyAttQuery (startOfMonth (2024, 1)) (endOfMonth utc (2024, 1)) (attendance_tbl ex_store))",
      folded reconcile_def, unfolded cash online rows]
  have c: "cashCollected (reconcile utc (2024, 1) ex_store) = Num 500"
    using c3 by simp
  have o: "onlineCollected (reconcile utc (2024, 1) ex_store) = Num 300"
    using c3 by simp
  have t: "totalCollected (reconcile utc (2024, 1) ex_store) = Num 800"
    using c3 by simp
  have "js_add (Num 500) (Num 300) = Num 800"
    using c3 unfolding c o t by simp
  with safe c o t show ?thesis by blast
qed

text \<open>
  C4 as claimed (paidCount is the number of distinct paying students) fails: with
  two rows for one student paidCount is 2 and one student has paid.
\<close>

theorem C4_paidCount_counts_rows_counterexample:
  "paidCount (reconcile utc (2024, 1) ex_store) = 2 \<and>
   spec_paid_student_count (2024, 1) (fees_tbl ex_store) = 1"
  by (simp add: reconcile_def computeDashboard_def paidFeesQuery_def ex_store_def ex_fee_def
      spec_paid_student_count_def)

text \<open>
  C4, amended. paidCount is the number of payment rows of the period
  (\<^verbatim>\<open>paidFees.length\<close>). It is never below the number of distinct paying
  students and equals it exactly when no student has two rows for the period.
\<close>

theorem C4_paidCount_is_row_count:
  "paidCount (reconcile tz M st) = length (filter (\<lambda>f. f_fee_month f = M) (fees_tbl st)) \<and>
   spec_paid_student_count M (fees_tbl st) \<le> paidCount (reconcile tz M st) \<and>
   (paidCount (reconcile tz M st) = spec_paid_student_count M (fees_tbl st) \<longleftrightarrow>
      distinct (map f_student_id (filter (\<lambda>f. f_fee_month f = M) (fees_tbl st))))"
proof -
  let ?rows = "filter (\<lambda>f. f_fee_month f = M) (fees_tbl st)"
  have p: "paidCount (reconcile tz M st) = length ?rows"
    by (simp add: reconcile_def computeDashboard_def paidFeesQuery_def)
  have c: "spec_paid_student_count M (fees_tbl st) = length (remdups (map f_student_id ?rows))"
    unfolding spec_paid_student_count_def by (rule card_set)
  have le: "length (remdups (map f_student_id ?rows)) \<le> length ?rows"
    using length_remdups_leq [of "map f_student_id ?rows"] by simp
  have eq: "length ?rows = length (remdups (map f_student_id ?rows)) \<longleftrightarrow>
      distinct (map f_student_id ?rows)"
    using length_remdups_eq [of "map f_student_id ?rows"] by auto
  show ?thesis
    unfolding p c using le eq by blast
qed


lemma endOfMonth_utc_jan: "endOfMonth utc (2024, 1) = (2024, 1, 31)"
  using endOfMonth_utc [of 1 2024] by (simp add: last_day_of_month_def days_in_month_def)

lemma activeStudents_ex_store_adv:
  "activeStudents utc (2024, 1) (students_tbl ex_store_adv) = [ex_student 1 ''Asha'']"
  unfolding activeStudents_def endOfMonth_utc_jan
  by (simp add: activeStudentsQuery_def ex_store_adv_def ex_student_def date_le_def)

lemma activeStudents_ex_store:
  "activeStudents utc (2024, 1) (students_tbl ex_store) = [ex_student 1 ''Asha'', ex_student 2 ''Bina'']"
  unfolding activeStudents_def endOfMonth_utc_jan
  by (simp add: activeStudentsQuery_def ex_store_def ex_student_def date_le_def)

text \<open>
  C5 as claimed (unpaidCount is the size of the active set minus the number of
  students with a payment row) fails when a payment row of the period belongs to a
  student outside the active set: here one active student has not paid, and the only row
  of January is from a student admitted in February.
\<close>

theorem C5_payer_outside_active_set_counterexample:
  "unpaidCount (reconcile utc (2024, 1) ex_store_adv) = 1 \<and>
   length (activeStudents utc (2024, 1) (students_tbl ex_store_adv)) = 1 \<and>
   spec_paid_student_count (2024, 1) (fees_tbl ex_store_adv) = 1"
proof -
  have u: "unpaidCount (reconcile utc (2024, 1) ex_store_adv) = 1"
    unfolding reconcile_def computeDashboard_def activeStudents_ex_store_adv
    by (simp add: paidFeesQuery_def ex_store_adv_def ex_fee_def ex_student_def
        paidStudentIds_def Set_new_def Set_add_def Set_has_def embed_student_def)
  have c: "spec_paid_student_count (2024, 1) (fees_tbl ex_store_adv) = 1"
    by (simp add: spec_paid_student_count_def ex_store_adv_def ex_fee_def)
  have l: "length (activeStudents utc (2024, 1) (students_tbl ex_store_adv)) = 1"
    unfolding activeStudents_ex_store_adv by simp
  from u l c show ?thesis by blast
qed

lemma length_filter_ids:
  assumes "distinct (map s_id A)" and "P \<subseteq> set (map s_id A)"
  shows "length (filter (\<lambda>s. s_id s \<in> P) A) = card P"
proof -
  have "length (filter (\<lambda>s. s_id s \<in> P) A) = length (filter (\<lambda>i. i \<in> P) (map s_id A))"
    by (simp add: filter_map comp_def)
  also have "\<dots> = card (set (filter (\<lambda>i. i \<in> P) (map s_id A)))"
    using assms(1) by (rule distinct_card [OF distinct_filter, symmetric])
  also have "set (filter (\<lambda>i. i \<in> P) (map s_id A)) = P"
    using assms(2) by auto
  finally show ?thesis .
qed

text \<open>
  C5, amended. unpaidCount is the size of the active set minus the number of
  students of the active set that have a payment row for the period. It is the claimed
  difference when every paying student is in the active set and the ids of the active
  set are distinct.
\<close>

theorem C5_unpaidCount_active_minus_active_payers:
  "unpaidCount (reconcile tz M st) =
     length (activeStudents tz M (students_tbl st)) -
     length (filter (\<lambda>s. s_id s \<in> set (map f_student_id (filter (\<lambda>f. f_fee_month f = M) (fees_tbl st))))
               (activeStudents tz M (students_tbl st))) \<and>
   (distinct (map s_id (activeStudents tz M (students_tbl st))) \<and>
    set (map f_student_id (filter (\<lambda>f. f_fee_month f = M) (fees_tbl st)))
      \<subseteq> set (map s_id (activeStudents tz M (students_tbl st))) \<longrightarrow>
    unpaidCount (reconcile tz M st) =
      length (activeStudents tz M (students_tbl st)) - spec_paid_student_count M (fees_tbl st))"
proof -
  let ?A = "activeStudents tz M (students_tbl st)"
  let ?P = "set (map f_student_id (filter (\<lambda>f. f_fee_month f = M) (fees_tbl st)))"
  have ids: "set (paidStudentIds (paidFeesQuery M st)) = ?P"
    by (simp only: paidStudentIds_def set_Set_new paidFeesQuery_ids)
  have u: "unpaidCount (reconcile tz M st) = length (filter (\<lambda>s. \<not> s_id s \<in> ?P) ?A)"
    unfolding ids [symmetric] by (simp add: reconcile_def computeDashboard_def Set_has_def)
  have split: "length (filter (\<lambda>s. s_id s \<in> ?P) ?A) + length (filter (\<lambda>s. \<not> s_id s \<in> ?P) ?A) = length ?A"
    by (rule sum_length_filter_compl)
  have one: "unpaidCount (reconcile tz M st) = length ?A - length (filter (\<lambda>s. s_id s \<in> ?P) ?A)"
    using u split by linarith
  have two: "length (filter (\<lambda>s. s_id s \<in> ?P) ?A) = spec_paid_student_count M (fees_tbl st)"
    if "distinct (map s_id ?A)" and "?P \<subseteq> set (map s_id ?A)"
    unfolding spec_paid_student_count_def using that by (rule length_filter_ids)
  show ?thesis
    using one two by presburger
qed

theorem C5_unpaidCount_witness:
  "distinct (map s_id (activeStudents utc (2024, 1) (students_tbl ex_store))) \<and>
   set (map f_student_id (filter (\<lambda>f. f_fee_month f = (2024, 1)) (fees_tbl ex_store)))
      \<subseteq> set (map s_id (activeStudents utc (2024, 1) (students_tbl ex_store))) \<and>
   unpaidCount (reconcile utc (2024, 1) ex_store) = 1 \<and>
   length (activeStudents utc (2024, 1) (students_tbl ex_store)) = 2 \<and>
   spec_paid_student_count (2024, 1) (fees_tbl ex_store) = 1"
proof -
  have c: "spec_paid_student_count (2024, 1) (fees_tbl ex_store) = 1"
    by (simp add: spec_paid_student_count_def ex_store_def ex_fee_def)
  have d: "distinct (map s_id (activeStudents utc (2024, 1) (students_tbl ex_store)))"
    unfolding activeStudents_ex_store by (simp add: ex_student_def)
  have s: "set (map f_student_id (filter (\<lambda>f. f_fee_month f = (2024, 1)) (fees_tbl ex_store)))
      \<subseteq> set (map s_id (activeStudents utc (2024, 1) (students_tbl ex_store)))"
    unfolding activeStudents_ex_store by (simp add: ex_store_def ex_fee_def ex_student_def)
  have l: "length (activeStudents utc (2024, 1) (students_tbl ex_store)) = 2"
    unfolding activeStudents_ex_store by simp
  from C5_unpaidCount_active_minus_active_payers [of utc "(2024, 1)" ex_store] d s
  have "unpaidCount (reconcile utc (2024, 1) ex_store) =
      length (activeStudents utc (2024, 1) (students_tbl ex_store)) - spec_paid_student_count (2024, 1) (fees_tbl ex_store)"
    by blast
  then have u: "unpaidCount (reconcile utc (2024, 1) ex_store) = 1"
    unfolding l c by simp
  from d s u l c show ?thesis by blast
qed

section \<open>Attendance summary\<close>

lemma stats_of_tally:
  "stats_of (tally m r) sid =
     (if a_student_id r = sid
      then \<lparr>present = present (stats_of m sid) + (if a_status r = Present then 1 else 0),
            absent = absent (stats_of m sid) + (if a_status r = Absent then 1 else 0),
            leave = leave (stats_of m sid) + (if a_status r = Leave then 1 else 0),
            holiday = holiday (stats_of m sid) + (if a_status r = Holiday then 1 else 0)\<rparr>
      else stats_of m sid)"
  by (cases "a_status r") (simp_all add: stats_of_def tally_def Let_def)

lemma stats_of_foldl:
  "stats_of (foldl tally m rows) sid =
     \<lparr>present = present (stats_of m sid) + count_status sid Present rows,
      absent = absent (stats_of m sid) + count_status sid Absent rows,
      leave = leave (stats_of m sid) + count_status sid Leave rows,
      holiday = holiday (stats_of m sid) + count_status sid Holiday rows\<rparr>"
proof (induction rows arbitrary: m)
  case Nil
  show ?case by (simp add: count_status_def)
next
  case (Cons r rows)
  show ?case
    unfolding foldl_Cons Cons.IH stats_of_tally
    by (simp add: count_status_def)
qed

lemma stats_of_summary:
  "stats_of (foldl tally Map.empty rows) sid =
     \<lparr>present = count_status sid Present rows, absent = count_status sid Absent rows,
      leave = count_status sid Leave rows, holiday = count_status sid Holiday rows\<rparr>"
  unfolding stats_of_foldl by (simp add: stats_of_def zero_stats_def)

lemma count_status_total:
  "count_status sid Present rows + count_status sid Absent rows +
   count_status sid Leave rows + count_status sid Holiday rows =
   length (filter (\<lambda>a. a_student_id a = sid) rows)"
proof (induction rows)
  case Nil
  show ?case by (simp add: count_status_def)
next
  case (Cons r rows)
  then show ?case
    by (cases "a_status r") (simp_all add: count_status_def)
qed

lemma attendanceSummary_rows:
  "attendanceSummary (Some d) students reportFilter =
     map (\<lambda>s. \<lparr>row_student = s,
                row_stats =
                  \<lparr>present = count_status (s_id s) Present (monthlyAttendance d),
                   absent = count_status (s_id s) Absent (monthlyAttendance d),
                   leave = count_status (s_id s) Leave (monthlyAttendance d),
                   holiday = count_status (s_id s) Holiday (monthlyAttendance d)\<rparr>\<rparr>)
       (filter (\<lambda>s. s_status s = Active \<and> (reportFilter = [] \<or> s_class_grade s = reportFilter))
          students)"
  using stats_of_summary [of "monthlyAttendance d"]
  by (simp add: attendanceSummary_def stats_of_def conj_commute)

text \<open>
  The tallying on the rows it is given. From a published dashboard, the attendance
  summary has one entry per student of the students state whose status is Active and
  whose class passes the filter, in the order of that state; students that are Left have
  no entry, billable or not. Each counter of an entry is the number of rows of
  dashboard.monthlyAttendance of that student with that status, so the four add up to
  the student's number of those rows and a student without rows has all zeros.
\<close>

lemma attendanceSummary_tallies:
  "map row_student (attendanceSummary (Some d) students reportFilter) =
     filter (\<lambda>s. s_status s = Active \<and> (reportFilter = [] \<or> s_class_grade s = reportFilter))
       students \<and>
   (\<forall>row \<in> set (attendanceSummary (Some d) students reportFilter).
      s_status (row_student row) = Active \<and>
      present (row_stats row) = count_status (s_id (row_student row)) Present (monthlyAttendance d) \<and>
      absent (row_stats row) = count_status (s_id (row_student row)) Absent (monthlyAttendance d) \<and>
      leave (row_stats row) = count_status (s_id (row_student row)) Leave (monthlyAttendance d) \<and>
      holiday (row_stats row) = count_status (s_id (row_student row)) Holiday (monthlyAttendance d) \<and>
      present (row_stats row) + absent (row_stats row) + leave (row_stats row) +
        holiday (row_stats row) =
        length (filter (\<lambda>a. a_student_id a = s_id (row_student row)) (monthlyAttendance d)) \<and>
      (filter (\<lambda>a. a_student_id a = s_id (row_student row)) (monthlyAttendance d) = [] \<longrightarrow>
         row_stats row = zero_stats))"
proof -
  have zero: "count_status sid st rows = 0"
    if "filter (\<lambda>a. a_student_id a = sid) rows = []" for sid st rows
    using that by (auto simp: count_status_def filter_empty_conv)
  show ?thesis
    unfolding attendanceSummary_rows
    by (auto simp: comp_def count_status_total zero zero_stats_def)
qed

lemma monthlyAttendance_ex_store_att:
  "monthlyAttendance (reconcile utc (2024, 1) ex_store_att) = attendance_tbl ex_store_att"
  unfolding reconcile_def endOfMonth_utc_jan
  by (simp add: computeDashboard_def monthlyAttQuery_def ex_store_att_def ex_att_def
      date_le_def startOfMonth_def)

lemma ravi_billable:
  "(ex_student 3 ''Ravi'')\<lparr>s_status := Left, s_leaving_date := Some (2024, 1, 20)\<rparr>
     \<in> set (activeStudents utc (2024, 1) (students_tbl ex_store_att))"
  unfolding activeStudents_def endOfMonth_utc_jan
  by (simp add: activeStudentsQuery_def ex_store_att_def ex_student_def date_le_def startOfMonth_def)

lemma attendanceSummary_example:
  "attendanceSummary (Some (reconcile utc (2024, 1) ex_store_att)) (students_tbl ex_store_att) [] =
     [\<lparr>row_student = ex_student 1 ''Asha'',
       row_stats = \<lparr>present = 2, absent = 1, leave = 0, holiday = 0\<rparr>\<rparr>,
      \<lparr>row_student = ex_student 2 ''Bina'', row_stats = zero_stats\<rparr>] \<and>
   (ex_student 3 ''Ravi'')\<lparr>s_status := Left, s_leaving_date := Some (2024, 1, 20)\<rparr>
     \<in> set (activeStudents utc (2024, 1) (students_tbl ex_store_att))"
proof -
  let ?d = "reconcile utc (2024, 1) ex_store_att"
  let ?rows = "attendanceSummary (Some ?d) (students_tbl ex_store_att) []"
  note c6 = attendanceSummary_tallies [of ?d "students_tbl ex_store_att" "[]"]
  have studs: "map row_student ?rows = [ex_student 1 ''Asha'', ex_student 2 ''Bina'']"
    using c6 by (simp add: ex_store_att_def ex_student_def)
  then obtain r1 r2 where rows: "?rows = [r1, r2]"
    and r1: "row_student r1 = ex_student 1 ''Asha''" and r2: "row_student r2 = ex_student 2 ''Bina''"
    by (auto simp: map_eq_Cons_conv)
  have id1: "s_id (ex_student 1 ''Asha'') = 1" and id2: "s_id (ex_student 2 ''Bina'') = 2"
    by (simp_all add: ex_student_def)
  have cnt1: "count_status 1 Present (attendance_tbl ex_store_att) = 2"
    "count_status 1 Absent (attendance_tbl ex_store_att) = 1"
    "count_status 1 Leave (attendance_tbl ex_store_att) = 0"
    "count_status 1 Holiday (attendance_tbl ex_store_att) = 0"
    by (simp_all add: count_status_def ex_store_att_def ex_att_def)
  have none2: "filter (\<lambda>a. a_student_id a = 2) (attendance_tbl ex_store_att) = []"
    by (simp add: ex_store_att_def ex_att_def)
  have s1: "row_stats r1 = \<lparr>present = 2, absent = 1, leave = 0, holiday = 0\<rparr>"
    using c6 unfolding rows monthlyAttendance_ex_store_att
    by (simp add: r1 id1 cnt1)
  have s2: "row_stats r2 = zero_stats"
    using c6 unfolding rows monthlyAttendance_ex_store_att
    by (simp add: r2 id2 none2)
  have "r1 = \<lparr>row_student = ex_student 1 ''Asha'',
       row_stats = \<lparr>present = 2, absent = 1, leave = 0, holiday = 0\<rparr>\<rparr>"
    using r1 s1 by simp
  moreover have "r2 = \<lparr>row_student = ex_student 2 ''Bina'', row_stats = zero_stats\<rparr>"
    using r2 s2 by simp
  ultimately show ?thesis
    using rows ravi_billable by simp
qed

lemma monthlyAttendance_ex_store_last_day:
  "monthlyAttendance (reconcile ist (2024, 1) ex_store_last_day) = [ex_att 1 30 Present]"
proof -
  have e: "endOfMonth ist (2024, 1) = (2024, 1, 30)"
    using endOfMonth_east [of 1 2024 330]
    by (simp add: last_day_of_month_def days_in_month_def prev_day_def)
  show ?thesis
    unfolding reconcile_def e
    by (simp add: computeDashboard_def monthlyAttQuery_def ex_store_last_day_def ex_att_def
        date_le_def startOfMonth_def)
qed

text \<open>
  C6. For a month M the attendance summary should have one entry per Active
  student (of the class, when a filter is set), each counter being the number of that
  student's attendance rows in M with that status. The tallying does this on the rows it
  is given (\<open>attendanceSummary_tallies\<close>), but the rows it is given are those the pass
  fetched up to the endOfMonth of line 199, the bound of C1. At UTC+05:30 and month
  2024-01 the bound is 2024-01-30: a student with Present rows on the 30th and the 31st
  of January gets present = 1 and counters that add up to 1, with two rows in January.
\<close>

theorem C6_summary_misses_last_day:
  "attendanceSummary (Some (reconcile ist (2024, 1) ex_store_last_day))
     (students_tbl ex_store_last_day) [] =
     [\<lparr>row_student = ex_student 1 ''Asha'',
       row_stats = \<lparr>present = 1, absent = 0, leave = 0, holiday = 0\<rparr>\<rparr>] \<and>
   count_status 1 Present
     (filter (\<lambda>a. in_month (2024, 1) (a_attendance_date a)) (attendance_tbl ex_store_last_day)) = 2 \<and>
   length (filter (\<lambda>a. a_student_id a = 1 \<and> in_month (2024, 1) (a_attendance_date a))
     (attendance_tbl ex_store_last_day)) = 2"
proof -
  have a: "attendanceSummary (Some (reconcile ist (2024, 1) ex_store_last_day))
     (students_tbl ex_store_last_day) [] =
     [\<lparr>row_student = ex_student 1 ''Asha'',
       row_stats = \<lparr>present = 1, absent = 0, leave = 0, holiday = 0\<rparr>\<rparr>]"
    unfolding attendanceSummary_rows monthlyAttendance_ex_store_last_day
    by (simp add: count_status_def ex_store_last_day_def ex_student_def ex_att_def)
  have b: "count_status 1 Present
     (filter (\<lambda>a. in_month (2024, 1) (a_attendance_date a)) (attendance_tbl ex_store_last_day)) = 2"
    by (simp add: count_status_def in_month_def ex_store_last_day_def ex_att_def)
  have c: "length (filter (\<lambda>a. a_student_id a = 1 \<and> in_month (2024, 1) (a_attendance_date a))
     (attendance_tbl ex_store_last_day)) = 2"
    by (simp add: in_month_def ex_store_last_day_def ex_att_def)
  from a b c show ?thesis by blast
qed

section \<open>Attendance upsert\<close>

lemma keys_upsert_row:
  "map att_key (upsert_row r tbl) =
     (if att_key r \<in> set (map att_key tbl) then map att_key tbl else map att_key tbl @ [att_key r])"
  by (simp add: upsert_row_def comp_def cong: map_cong)

lemma unique_keys_upsert_row: "unique_keys tbl \<Longrightarrow> unique_keys (upsert_row r tbl)"
  unfolding unique_keys_def keys_upsert_row by simp

lemma upsert_row_mem: "r \<in> set (upsert_row r tbl)"
  by (auto simp: upsert_row_def)

lemma upsert_row_keeps:
  "a \<in> set tbl \<Longrightarrow> att_key a \<noteq> att_key r \<or> a = r \<Longrightarrow> a \<in> set (upsert_row r tbl)"
  by (auto simp: upsert_row_def)

lemma upsert_row_other_keys:
  "filter (\<lambda>a. att_key a \<noteq> att_key r) (upsert_row r tbl) = filter (\<lambda>a. att_key a \<noteq> att_key r) tbl"
proof -
  have "filter (\<lambda>a. att_key a \<noteq> att_key r) (map (\<lambda>a. if att_key a = att_key r then r else a) xs) =
        filter (\<lambda>a. att_key a \<noteq> att_key r) xs" for xs
    by (induction xs) simp_all
  then show ?thesis
    by (simp add: upsert_row_def)
qed

lemma unique_keys_store_upsert:
  "unique_keys tbl \<Longrightarrow> unique_keys (store_upsert accepted rows tbl)"
proof (induction rows arbitrary: tbl)
  case Nil
  then show ?case by (simp add: store_upsert_def)
next
  case (Cons x rows)
  have "unique_keys (if accepted x then upsert_row x tbl else tbl)"
    using Cons.prems unique_keys_upsert_row [OF Cons.prems, of x] by simp
  then have "unique_keys (store_upsert accepted rows (if accepted x then upsert_row x tbl else tbl))"
    by (rule Cons.IH)
  then show ?case by (simp add: store_upsert_def)
qed

lemma store_upsert_keeps:
  assumes "a \<in> set tbl" and "\<forall>r \<in> set rows. att_key a \<noteq> att_key r \<or> a = r"
  shows "a \<in> set (store_upsert accepted rows tbl)"
  using assms
proof (induction rows arbitrary: tbl)
  case Nil
  then show ?case by (simp add: store_upsert_def)
next
  case (Cons x rows)
  from Cons.prems have x: "att_key a \<noteq> att_key x \<or> a = x" by simp
  have "a \<in> set (if accepted x then upsert_row x tbl else tbl)"
    using Cons.prems(1) upsert_row_keeps [OF Cons.prems(1) x] by simp
  then have "a \<in> set (store_upsert accepted rows (if accepted x then upsert_row x tbl else tbl))"
    using Cons.prems(2) by (intro Cons.IH) simp_all
  then show ?case by (simp add: store_upsert_def)
qed

lemma store_upsert_mem:
  assumes "r \<in> set rows" and "accepted r"
    and "\<forall>r' \<in> set rows. att_key r \<noteq> att_key r' \<or> r = r'"
  shows "r \<in> set (store_upsert accepted rows tbl)"
  using assms
proof (induction rows arbitrary: tbl)
  case Nil
  then show ?case by simp
next
  case (Cons x rows)
  show ?case
  proof (cases "r = x")
    case True
    have "r \<in> set (upsert_row r tbl)" by (rule upsert_row_mem)
    moreover have "\<forall>r' \<in> set rows. att_key r \<noteq> att_key r' \<or> r = r'"
      using Cons.prems(3) by simp
    ultimately have "r \<in> set (store_upsert accepted rows (upsert_row r tbl))"
      by (rule store_upsert_keeps)
    then show ?thesis
      using True Cons.prems(2) by (simp add: store_upsert_def)
  next
    case False
    with Cons.prems have "r \<in> set rows" by simp
    moreover have "\<forall>r' \<in> set rows. att_key r \<noteq> att_key r' \<or> r = r'"
      using Cons.prems(3) by simp
    ultimately have "r \<in> set (store_upsert accepted rows t)" for t
      using Cons.prems(2) Cons.IH by blast
    then show ?thesis
      by (simp add: store_upsert_def)
  qed
qed

lemma unique_keys_filter:
  "unique_keys tbl \<Longrightarrow> x \<in> set tbl \<Longrightarrow> filter (\<lambda>a. att_key a = att_key x) tbl = [x]"
  unfolding unique_keys_def
proof (induction tbl)
  case Nil
  then show ?case by simp
next
  case (Cons y tbl)
  show ?case
  proof (cases "x = y")
    case True
    have "att_key y \<notin> set (map att_key tbl)"
      using Cons.prems(1) by simp
    then have "filter (\<lambda>a. att_key a = att_key y) tbl = []"
      unfolding filter_empty_conv by (metis image_eqI list.set_map)
    then show ?thesis using True by simp
  next
    case False
    with Cons.prems have x: "x \<in> set tbl" by simp
    then have "att_key y \<noteq> att_key x" using Cons.prems(1) by force
    then show ?thesis using Cons x by simp
  qed
qed

lemma upsert_row_from:
  "a \<in> set (upsert_row r tbl) \<Longrightarrow> a = r \<or> a \<in> set tbl"
  by (auto simp: upsert_row_def split: if_splits)

lemma store_upsert_from:
  "a \<in> set (store_upsert accepted rows tbl) \<Longrightarrow> a \<in> set rows \<or> a \<in> set tbl"
proof (induction rows arbitrary: tbl)
  case Nil
  then show ?case by (simp add: store_upsert_def)
next
  case (Cons x rows)
  from Cons.prems
  have "a \<in> set (store_upsert accepted rows (if accepted x then upsert_row x tbl else tbl))"
    by (simp add: store_upsert_def)
  then have "a \<in> set rows \<or> a \<in> set (if accepted x then upsert_row x tbl else tbl)"
    by (rule Cons.IH)
  then show ?case
    using upsert_row_from [of a x tbl] by (auto split: if_splits)
qed

lemma upsert_row_twice: "upsert_row r (upsert_row r tbl) = upsert_row r tbl"
proof (cases "att_key r \<in> set (map att_key tbl)")
  case True
  define f where "f = (\<lambda>a. if att_key a = att_key r then r else a)"
  have keys: "map att_key (map f tbl) = map att_key tbl"
    by (induction tbl) (simp_all add: f_def)
  have ff: "map f (map f tbl) = map f tbl"
    by (induction tbl) (simp_all add: f_def)
  have first: "upsert_row r tbl = map f tbl"
    using True unfolding upsert_row_def f_def by (simp only: if_True)
  have "att_key r \<in> set (map att_key (map f tbl))"
    using True by (simp only: keys)
  then have "upsert_row r (map f tbl) = map f (map f tbl)"
    unfolding upsert_row_def f_def by (simp only: if_True)
  then show ?thesis
    by (simp only: first ff)
next
  case False
  then have "att_key a \<noteq> att_key r" if "a \<in> set tbl" for a
    using that by (metis image_eqI list.set_map)
  then have "map (\<lambda>a. if att_key a = att_key r then r else a) tbl = tbl"
    by (intro map_idI) simp
  with False show ?thesis
    by (simp add: upsert_row_def)
qed

lemma length_upsert_row:
  "length (upsert_row r tbl) =
     (if att_key r \<in> set (map att_key tbl) then length tbl else length tbl + 1)"
  by (simp add: upsert_row_def)

lemma markAttendance_eq:
  "markAttendance accepted D sid st tbl =
     (if accepted \<lparr>a_student_id = sid, a_attendance_date = D, a_status = st\<rparr>
      then upsert_row \<lparr>a_student_id = sid, a_attendance_date = D, a_status = st\<rparr> tbl
      else tbl)"
  by (simp add: markAttendance_def store_upsert_def)

lemma filter_map_fixed:
  assumes "\<And>x. x \<in> set xs \<Longrightarrow> f x = x \<or> (\<not> P x \<and> \<not> P (f x))"
  shows "filter P (map f xs) = filter P xs"
  using assms
proof (induction xs)
  case Nil
  then show ?case by simp
next
  case (Cons x xs)
  have tl: "filter P (map f xs) = filter P xs"
    by (rule Cons.IH) (simp add: Cons.prems)
  have "f x = x \<or> (\<not> P x \<and> \<not> P (f x))"
    by (rule Cons.prems) simp
  then show ?case
    using tl by auto
qed

lemma upsert_row_outside:
  assumes "att_key r \<in> K"
  shows "filter (\<lambda>a. att_key a \<notin> K) (upsert_row r tbl) = filter (\<lambda>a. att_key a \<notin> K) tbl"
proof (cases "att_key r \<in> set (map att_key tbl)")
  case True
  have "filter (\<lambda>a. att_key a \<notin> K) (map (\<lambda>a. if att_key a = att_key r then r else a) tbl) =
        filter (\<lambda>a. att_key a \<notin> K) tbl"
    by (rule filter_map_fixed) (use assms in auto)
  then show ?thesis
    using True unfolding upsert_row_def by (simp only: if_True)
next
  case False
  then show ?thesis
    using assms by (simp add: upsert_row_def)
qed

lemma store_upsert_outside:
  assumes "\<And>r. r \<in> set rows \<Longrightarrow> accepted r \<Longrightarrow> att_key r \<in> K"
  shows "filter (\<lambda>a. att_key a \<notin> K) (store_upsert accepted rows tbl) =
         filter (\<lambda>a. att_key a \<notin> K) tbl"
  using assms
proof (induction rows arbitrary: tbl)
  case Nil
  then show ?case by (simp add: store_upsert_def)
next
  case (Cons x rows)
  let ?t = "if accepted x then upsert_row x tbl else tbl"
  have hd: "filter (\<lambda>a. att_key a \<notin> K) ?t = filter (\<lambda>a. att_key a \<notin> K) tbl"
  proof (cases "accepted x")
    case True
    have "att_key x \<in> K" by (rule Cons.prems) (simp_all add: True)
    then show ?thesis using True by (simp add: upsert_row_outside)
  next
    case False
    then show ?thesis by simp
  qed
  have "filter (\<lambda>a. att_key a \<notin> K) (store_upsert accepted rows ?t) =
        filter (\<lambda>a. att_key a \<notin> K) ?t"
    by (rule Cons.IH) (simp add: Cons.prems)
  then show ?case
    unfolding hd by (simp add: store_upsert_def)
qed

lemma keys_store_upsert:
  "set (map att_key (store_upsert accepted rows tbl)) =
     set (map att_key tbl) \<union> att_key ` {r \<in> set rows. accepted r}"
proof (induction rows arbitrary: tbl)
  case Nil
  then show ?case by (simp add: store_upsert_def)
next
  case (Cons x rows)
  let ?t = "if accepted x then upsert_row x tbl else tbl"
  have hd: "set (map att_key ?t) =
        set (map att_key tbl) \<union> (if accepted x then {att_key x} else {})"
    unfolding if_distrib [of "map att_key"] if_distrib [of set] keys_upsert_row
    by auto
  have "set (map att_key (store_upsert accepted rows ?t)) =
        set (map att_key ?t) \<union> att_key ` {r \<in> set rows. accepted r}"
    by (rule Cons.IH)
  also have "\<dots> = set (map att_key tbl) \<union> att_key ` {r \<in> set (x # rows). accepted r}"
    unfolding hd by auto
  finally show ?case
    by (simp add: store_upsert_def)
qed

lemma accepted_upserts_keys:
  "att_key ` {r \<in> set (upserts st D fs). accepted r} =
     {(s_id s, D) | s. s \<in> set fs \<and> s_status s = Active \<and>
        accepted \<lparr>a_student_id = s_id s, a_attendance_date = D, a_status = st\<rparr>}"
proof (rule set_eqI, rule iffI)
  fix k
  assume "k \<in> att_key ` {r \<in> set (upserts st D fs). accepted r}"
  then obtain r where r: "r \<in> set (upserts st D fs)" "accepted r" "k = att_key r"
    by blast
  from r(1) obtain s where s: "s \<in> set fs" "s_status s = Active"
    "r = \<lparr>a_student_id = s_id s, a_attendance_date = D, a_status = st\<rparr>"
    by (auto simp: upserts_def)
  have "k = (s_id s, D)"
    unfolding r(3) s(3) by (simp add: att_key_def)
  with s r(2) show "k \<in> {(s_id s, D) | s. s \<in> set fs \<and> s_status s = Active \<and>
        accepted \<lparr>a_student_id = s_id s, a_attendance_date = D, a_status = st\<rparr>}"
    by blast
next
  fix k
  assume "k \<in> {(s_id s, D) | s. s \<in> set fs \<and> s_status s = Active \<and>
        accepted \<lparr>a_student_id = s_id s, a_attendance_date = D, a_status = st\<rparr>}"
  then obtain s where s: "s \<in> set fs" "s_status s = Active"
    "accepted \<lparr>a_student_id = s_id s, a_attendance_date = D, a_status = st\<rparr>"
    "k = (s_id s, D)"
    by blast
  let ?r = "\<lparr>a_student_id = s_id s, a_attendance_date = D, a_status = st\<rparr>"
  have "?r \<in> set (upserts st D fs)"
    using s(1,2) by (simp add: upserts_def)
  moreover have "k = att_key ?r"
    unfolding s(4) by (simp add: att_key_def)
  ultimately show "k \<in> att_key ` {r \<in> set (upserts st D fs). accepted r}"
    using s(3) by blast
qed

text \<open>
  The batch of a "mark all" on the store: what the table holds after the call, for either
  status.
\<close>

lemma upserts_unique: "unique_keys tbl \<Longrightarrow> unique_keys (store_upsert accepted (upserts st D fs) tbl)"
  by (rule unique_keys_store_upsert)

lemma upserts_marked:
  assumes "unique_keys tbl" and "s \<in> set fs" and "s_status s = Active"
    and "accepted \<lparr>a_student_id = s_id s, a_attendance_date = D, a_status = st\<rparr>"
  shows "filter (\<lambda>a. att_key a = (s_id s, D)) (store_upsert accepted (upserts st D fs) tbl) =
         [\<lparr>a_student_id = s_id s, a_attendance_date = D, a_status = st\<rparr>]"
proof -
  let ?row = "\<lambda>s. \<lparr>a_student_id = s_id s, a_attendance_date = D, a_status = st\<rparr>"
  have same: "\<forall>r' \<in> set (upserts st D fs). att_key (?row s) \<noteq> att_key r' \<or> ?row s = r'"
    by (auto simp: att_key_def upserts_def)
  have "?row s \<in> set (upserts st D fs)"
    using assms(2,3) by (simp add: upserts_def)
  then have "?row s \<in> set (store_upsert accepted (upserts st D fs) tbl)"
    using assms(4) same by (rule store_upsert_mem)
  from unique_keys_filter [OF upserts_unique [OF assms(1)] this] show ?thesis
    by (simp add: att_key_def)
qed

lemma upserts_others:
  "filter (\<lambda>a. att_key a \<notin>
       {(s_id s, D) | s. s \<in> set fs \<and> s_status s = Active \<and>
          accepted \<lparr>a_student_id = s_id s, a_attendance_date = D, a_status = st\<rparr>})
     (store_upsert accepted (upserts st D fs) tbl) =
   filter (\<lambda>a. att_key a \<notin>
       {(s_id s, D) | s. s \<in> set fs \<and> s_status s = Active \<and>
          accepted \<lparr>a_student_id = s_id s, a_attendance_date = D, a_status = st\<rparr>}) tbl"
proof (rule store_upsert_outside)
  fix r
  assume "r \<in> set (upserts st D fs)" and "accepted r"
  then have "att_key r \<in> att_key ` {r \<in> set (upserts st D fs). accepted r}"
    by simp
  then show "att_key r \<in> {(s_id s, D) | s. s \<in> set fs \<and> s_status s = Active \<and>
          accepted \<lparr>a_student_id = s_id s, a_attendance_date = D, a_status = st\<rparr>}"
    unfolding accepted_upserts_keys .
qed

lemma upserts_keys:
  "set (map att_key (store_upsert accepted (upserts st D fs) tbl)) =
     set (map att_key tbl) \<union>
     {(s_id s, D) | s. s \<in> set fs \<and> s_status s = Active \<and>
        accepted \<lparr>a_student_id = s_id s, a_attendance_date = D, a_status = st\<rparr>}"
  unfolding keys_store_upsert accepted_upserts_keys ..

text \<open>
  C7. On a table with at most one record per (student, date), every attendance
  write leaves at most one record per key and touches only the keys it writes.

  \<^item> A single mark (markAttendance): the table keeps unique keys; an accepted mark leaves
    exactly its record under its key; the records of every other key are the ones of the
    table before, in their order; the table grows by one row only when the key was new;
    marking twice is marking once.
  \<^item> "Mark All Present" and "Mark All Holiday" (markAllPresent, markAllHoliday), each
    with its own status Present or Holiday: the table keeps unique keys; every Active
    student of the filtered list whose row the store accepted has exactly one record for
    the date, with that status; the records of every key outside the accepted batch
    (other dates, students not in the list, students that are Left, refused rows) are the
    ones of the table before, in their order; and the keys of the table are the keys
    before together with the keys of the accepted batch.

  Here \<open>marked st\<close> is the set of keys of the accepted batch for the status \<open>st\<close>.
\<close>

theorem C7_attendance_write_keeps_keys_unique:
  fixes accepted :: "AttendanceRecord \<Rightarrow> bool" and D :: date and fs :: "Student list"
  defines "marked \<equiv> \<lambda>st. {(s_id s, D) | s. s \<in> set fs \<and> s_status s = Active \<and>
             accepted \<lparr>a_student_id = s_id s, a_attendance_date = D, a_status = st\<rparr>}"
  assumes "unique_keys tbl"
  shows
    "unique_keys (markAttendance accepted D sid st tbl) \<and>
     (accepted \<lparr>a_student_id = sid, a_attendance_date = D, a_status = st\<rparr> \<longrightarrow>
        filter (\<lambda>a. att_key a = (sid, D)) (markAttendance accepted D sid st tbl) =
          [\<lparr>a_student_id = sid, a_attendance_date = D, a_status = st\<rparr>]) \<and>
     filter (\<lambda>a. att_key a \<noteq> (sid, D)) (markAttendance accepted D sid st tbl) =
       filter (\<lambda>a. att_key a \<noteq> (sid, D)) tbl \<and>
     length (markAttendance accepted D sid st tbl) =
       (if accepted \<lparr>a_student_id = sid, a_attendance_date = D, a_status = st\<rparr> \<and>
           (sid, D) \<notin> set (map att_key tbl)
        then length tbl + 1 else length tbl) \<and>
     markAttendance accepted D sid st (markAttendance accepted D sid st tbl) =
       markAttendance accepted D sid st tbl \<and>
     unique_keys (markAllPresent accepted D fs tbl) \<and>
     unique_keys (markAllHoliday accepted D fs tbl) \<and>
     (\<forall>s \<in> set fs.
        s_status s = Active \<and>
        accepted \<lparr>a_student_id = s_id s, a_attendance_date = D, a_status = Present\<rparr> \<longrightarrow>
        filter (\<lambda>a. att_key a = (s_id s, D)) (markAllPresent accepted D fs tbl) =
          [\<lparr>a_student_id = s_id s, a_attendance_date = D, a_status = Present\<rparr>]) \<and>
     (\<forall>s \<in> set fs.
        s_status s = Active \<and>
        accepted \<lparr>a_student_id = s_id s, a_attendance_date = D, a_status = Holiday\<rparr> \<longrightarrow>
        filter (\<lambda>a. att_key a = (s_id s, D)) (markAllHoliday accepted D fs tbl) =
          [\<lparr>a_student_id = s_id s, a_attendance_date = D, a_status = Holiday\<rparr>]) \<and>
     filter (\<lambda>a. att_key a \<notin> marked Present) (markAllPresent accepted D fs tbl) =
       filter (\<lambda>a. att_key a \<notin> marked Present) tbl \<and>
     filter (\<lambda>a. att_key a \<notin> marked Holiday) (markAllHoliday accepted D fs tbl) =
       filter (\<lambda>a. att_key a \<notin> marked Holiday) tbl \<and>
     set (map att_key (markAllPresent accepted D fs tbl)) = set (map att_key tbl) \<union> marked Present \<and>
     set (map att_key (markAllHoliday accepted D fs tbl)) = set (map att_key tbl) \<union> marked Holiday"
proof -
  let ?r = "\<lparr>a_student_id = sid, a_attendance_date = D, a_status = st\<rparr>"
  have u: "unique_keys tbl" by fact
  have key: "att_key ?r = (sid, D)"
    by (simp add: att_key_def)
  have one: "unique_keys (markAttendance accepted D sid st tbl)"
    unfolding markAttendance_def using u by (rule unique_keys_store_upsert)
  have single: "filter (\<lambda>a. att_key a = (sid, D)) (markAttendance accepted D sid st tbl) = [?r]"
    if "accepted ?r"
  proof -
    have "?r \<in> set (markAttendance accepted D sid st tbl)"
      using that by (simp add: markAttendance_eq upsert_row_mem)
    from unique_keys_filter [OF one this] show ?thesis
      by (simp only: key)
  qed
  have others: "filter (\<lambda>a. att_key a \<noteq> (sid, D)) (markAttendance accepted D sid st tbl) =
       filter (\<lambda>a. att_key a \<noteq> (sid, D)) tbl"
    using upsert_row_other_keys [of ?r tbl] by (simp add: markAttendance_eq key)
  have len: "length (markAttendance accepted D sid st tbl) =
       (if accepted ?r \<and> (sid, D) \<notin> set (map att_key tbl) then length tbl + 1 else length tbl)"
    using length_upsert_row [of ?r tbl] by (simp add: markAttendance_eq key)
  have twice: "markAttendance accepted D sid st (markAttendance accepted D sid st tbl) =
       markAttendance accepted D sid st tbl"
    by (simp add: markAttendance_eq upsert_row_twice)
  have pu: "unique_keys (markAllPresent accepted D fs tbl)"
    unfolding markAllPresent_def using u by (rule upserts_unique)
  have hu: "unique_keys (markAllHoliday accepted D fs tbl)"
    unfolding markAllHoliday_def using u by (rule upserts_unique)
  have pm: "filter (\<lambda>a. att_key a = (s_id s, D)) (markAllPresent accepted D fs tbl) =
          [\<lparr>a_student_id = s_id s, a_attendance_date = D, a_status = Present\<rparr>]"
    if "s \<in> set fs" and "s_status s = Active"
      and "accepted \<lparr>a_student_id = s_id s, a_attendance_date = D, a_status = Present\<rparr>" for s
    unfolding markAllPresent_def using u that by (rule upserts_marked)
  have hm: "filter (\<lambda>a. att_key a = (s_id s, D)) (markAllHoliday accepted D fs tbl) =
          [\<lparr>a_student_id = s_id s, a_attendance_date = D, a_status = Holiday\<rparr>]"
    if "s \<in> set fs" and "s_status s = Active"
      and "accepted \<lparr>a_student_id = s_id s, a_attendance_date = D, a_status = Holiday\<rparr>" for s
    unfolding markAllHoliday_def using u that by (rule upserts_marked)
  have po: "filter (\<lambda>a. att_key a \<notin> marked Present) (markAllPresent accepted D fs tbl) =
       filter (\<lambda>a. att_key a \<notin> marked Present) tbl"
    unfolding markAllPresent_def marked_def by (rule upserts_others)
  have ho: "filter (\<lambda>a. att_key a \<notin> marked Holiday) (markAllHoliday accepted D fs tbl) =
       filter (\<lambda>a. att_key a \<notin> marked Holiday) tbl"
    unfolding markAllHoliday_def marked_def by (rule upserts_others)
  have pk: "set (map att_key (markAllPresent accepted D fs tbl)) =
       set (map att_key tbl) \<union> marked Present"
    unfolding markAllPresent_def marked_def by (rule upserts_keys)
  have hk: "set (map att_key (markAllHoliday accepted D fs tbl)) =
       set (map att_key tbl) \<union> marked Holiday"
    unfolding markAllHoliday_def marked_def by (rule upserts_keys)
  from one single others len twice pu hu pm hm po ho pk hk show ?thesis
    by blast
qed

theorem C7_mark_all_present_witness:
  "unique_keys ex_marks \<and>
   markAllPresent (\<lambda>r. True) ex_day ex_filtered ex_marks =
     [\<lparr>a_student_id = 2, a_attendance_date = ex_day, a_status = Present\<rparr>,
      \<lparr>a_student_id = 1, a_attendance_date = ex_day, a_status = Present\<rparr>,
      \<lparr>a_student_id = 3, a_attendance_date = ex_day, a_status = Present\<rparr>] \<and>
   unique_keys (markAllPresent (\<lambda>r. True) ex_day ex_filtered ex_marks) \<and>
   markAllHoliday (\<lambda>r. True) ex_day ex_filtered ex_marks_two_days =
     [\<lparr>a_student_id = 1, a_attendance_date = (2024, 1, 14), a_status = Absent\<rparr>,
      \<lparr>a_student_id = 2, a_attendance_date = ex_day, a_status = Holiday\<rparr>,
      \<lparr>a_student_id = 4, a_attendance_date = ex_day, a_status = Leave\<rparr>,
      \<lparr>a_student_id = 1, a_attendance_date = ex_day, a_status = Holiday\<rparr>,
      \<lparr>a_student_id = 3, a_attendance_date = ex_day, a_status = Holiday\<rparr>] \<and>
   unique_keys (markAllHoliday (\<lambda>r. True) ex_day ex_filtered ex_marks_two_days) \<and>
   markAttendance (\<lambda>r. True) ex_day 2 Holiday ex_marks = ex_marks \<and>
   length (markAttendance (\<lambda>r. True) ex_day 1 Present ex_marks) = 2"
proof -
  have u: "unique_keys ex_marks"
    by (simp add: unique_keys_def ex_marks_def)
  have u2: "unique_keys ex_marks_two_days"
    by (simp add: unique_keys_def ex_marks_two_days_def att_key_def ex_day_def)
  have m: "markAllPresent (\<lambda>r. True) ex_day ex_filtered ex_marks =
     [\<lparr>a_student_id = 2, a_attendance_date = ex_day, a_status = Present\<rparr>,
      \<lparr>a_student_id = 1, a_attendance_date = ex_day, a_status = Present\<rparr>,
      \<lparr>a_student_id = 3, a_attendance_date = ex_day, a_status = Present\<rparr>]"
    by (simp add: markAllPresent_def upserts_def store_upsert_def upsert_row_def att_key_def
        ex_filtered_def ex_marks_def ex_student_def)
  have m2: "markAllHoliday (\<lambda>r. True) ex_day ex_filtered ex_marks_two_days =
     [\<lparr>a_student_id = 1, a_attendance_date = (2024, 1, 14), a_status = Absent\<rparr>,
      \<lparr>a_student_id = 2, a_attendance_date = ex_day, a_status = Holiday\<rparr>,
      \<lparr>a_student_id = 4, a_attendance_date = ex_day, a_status = Leave\<rparr>,
      \<lparr>a_student_id = 1, a_attendance_date = ex_day, a_status = Holiday\<rparr>,
      \<lparr>a_student_id = 3, a_attendance_date = ex_day, a_status = Holiday\<rparr>]"
    by (simp add: markAllHoliday_def upserts_def store_upsert_def upsert_row_def att_key_def
        ex_filtered_def ex_marks_two_days_def ex_student_def ex_day_def)
  have h: "markAttendance (\<lambda>r. True) ex_day 2 Holiday ex_marks = ex_marks"
    by (simp add: markAttendance_eq upsert_row_def att_key_def ex_marks_def)
  note c7 = C7_attendance_write_keeps_keys_unique [OF u, of "\<lambda>r. True" ex_day 1 Present ex_filtered]
  note c7' = C7_attendance_write_keeps_keys_unique [OF u2, of "\<lambda>r. True" ex_day 1 Present ex_filtered]
  have l: "length (markAttendance (\<lambda>r. True) ex_day 1 Present ex_marks) = 2"
    using c7 by (simp add: ex_marks_def att_key_def ex_day_def)
  have k: "unique_keys (markAllPresent (\<lambda>r. True) ex_day ex_filtered ex_marks)"
    using c7 by blast
  have k2: "unique_keys (markAllHoliday (\<lambda>r. True) ex_day ex_filtered ex_marks_two_days)"
    using c7' by blast
  from u m k m2 k2 h l show ?thesis by blast
qed

section \<open>Report export: reading a report back\<close>

declare string_of_nat.simps [simp del]














lemma exportCSV_fees:
  "exportCSV FeesReport (Some d) students reportFilter =
     Some (csvContent fee_headers (map fee_row (filter (fee_in_report reportFilter) (paidFees d))))"
  by (simp add: exportCSV_def)



lemma paidFees_ex_store_comma:
  "paidFees (reconcile utc (2024, 1) ex_store_comma) =
     [embed_student (students_tbl ex_store_comma) (ex_fee 1 5 500 Cash)]"
  by (simp add: reconcile_def computeDashboard_def paidFeesQuery_def ex_store_comma_def ex_fee_def)

lemma String_int_500: "String_int 500 = ''500''"
  by (simp add: String_int_def string_of_nat.simps digit_char_def)







section \<open>Reconciliation: failing queries and interleaved passes\<close>

lemma fetchData_six:
  "fetchData tz M D [a1, a2, a3, a4, a5, a6] pub =
     (\<lparr>pub_students =
         (case a1 of None \<Rightarrow> pub_students pub | Some st \<Rightarrow> studentsQuery (students_tbl st)),
       pub_attendance =
         (case a2 of None \<Rightarrow> pub_attendance pub | Some st \<Rightarrow> attendanceQuery D (attendance_tbl st)),
       pub_dashboard =
         (if valid_month M
          then (case a3 of
                  None \<Rightarrow> pub_dashboard pub
                | Some s3 \<Rightarrow>
                    (case a4 of
                       None \<Rightarrow> pub_dashboard pub
                     | Some s4 \<Rightarrow>
                         Some (computeDashboard
                                 (activeStudents tz M (students_tbl s3))
                                 (paidFeesQuery M s4)
                                 (map_option (\<lambda>st. leftStudentsQuery (startOfMonth M) (endOfMonth tz M)
                                                     (students_tbl st)) a5)
                                 (map_option (\<lambda>st. monthlyAttQuery (startOfMonth M) (endOfMonth tz M)
                                                     (attendance_tbl st)) a6))))
          else pub_dashboard pub)\<rparr>,
      if valid_month M then None else Some RangeError)"
  by (cases a1; cases a2; cases a3; cases a4; cases "valid_month M")
     (simp_all add: fetchData_def start_pass_def resume_def month_bounds_def)

text \<open>
  C9, amended. A pass in which no query reaches the store leaves the published
  state as it was. Otherwise each view follows its own query: students is replaced when
  the students query returned data, attendance when the attendance query did, and, for a
  selected month that is a valid month, the dashboard when both the active-students and
  the paid-fees query did, with leftThisMonth 0 and an empty monthlyAttendance where
  those two queries failed; a view whose query failed keeps its previous value. When the
  selected month is not a valid month the pass is rejected with a RangeError after the
  students and the attendance query: those two views follow their queries and the
  dashboard keeps its previous value.
\<close>

theorem C9_each_view_follows_its_query:
  "fetchData tz M D [None, None, None, None, None, None] pub =
     (pub, if valid_month M then None else Some RangeError) \<and>
   snd (fetchData tz M D [a1, a2, a3, a4, a5, a6] pub) =
     (if valid_month M then None else Some RangeError) \<and>
   pub_students (fst (fetchData tz M D [a1, a2, a3, a4, a5, a6] pub)) =
     (case a1 of None \<Rightarrow> pub_students pub | Some st \<Rightarrow> studentsQuery (students_tbl st)) \<and>
   pub_attendance (fst (fetchData tz M D [a1, a2, a3, a4, a5, a6] pub)) =
     (case a2 of None \<Rightarrow> pub_attendance pub | Some st \<Rightarrow> attendanceQuery D (attendance_tbl st)) \<and>
   pub_dashboard (fst (fetchData tz M D [a1, a2, a3, a4, a5, a6] pub)) =
     (if valid_month M
      then (case a3 of
              None \<Rightarrow> pub_dashboard pub
            | Some s3 \<Rightarrow>
                (case a4 of
                   None \<Rightarrow> pub_dashboard pub
                 | Some s4 \<Rightarrow>
                     Some (computeDashboard
                             (activeStudents tz M (students_tbl s3))
                             (paidFeesQuery M s4)
                             (map_option (\<lambda>st. leftStudentsQuery (startOfMonth M) (endOfMonth tz M)
                                                 (students_tbl st)) a5)
                             (map_option (\<lambda>st. monthlyAttQuery (startOfMonth M) (endOfMonth tz M)
                                                 (attendance_tbl st)) a6))))
      else pub_dashboard pub)"
  unfolding fetchData_six by simp

text \<open>
  A selected month that is no month: the students and the attendance view are replaced,
  the call is rejected and the dashboard stays.
\<close>

lemma fetchData_invalid_month_example:
  "fetchData utc (2024, 13) ex_day
     [Some ex_store_att, Some ex_store_att, Some ex_store_att, Some ex_store_att,
      Some ex_store_att, Some ex_store_att] ex_pub =
     (ex_pub\<lparr>pub_students := studentsQuery (students_tbl ex_store_att),
             pub_attendance := attendanceQuery ex_day (attendance_tbl ex_store_att)\<rparr>,
      Some RangeError)"
  unfolding fetchData_six by (simp add: valid_month_def)

text \<open>
  C9 as claimed (an unreachable store leaves the published state unchanged, never
  partly updated) fails. When only the first query is answered, students is replaced
  (three students) and the dashboard keeps its old value; when the last two queries
  fail, a dashboard is published with leftThisMonth 0 and no attendance rows although
  the store has one student who left in the month and four rows.
\<close>

theorem C9_partial_update_counterexample:
  "length (pub_students ex_pub) = 2 \<and>
   length (pub_students (fst
     (fetchData utc (2024, 1) ex_day [Some ex_store_att, None, None, None, None, None] ex_pub))) = 3 \<and>
   pub_dashboard (fst
     (fetchData utc (2024, 1) ex_day [Some ex_store_att, None, None, None, None, None] ex_pub)) =
     pub_dashboard ex_pub \<and>
   leftStudentsQuery (startOfMonth (2024, 1)) (endOfMonth utc (2024, 1)) (students_tbl ex_store_att) = [3] \<and>
   length (monthlyAttQuery (startOfMonth (2024, 1)) (endOfMonth utc (2024, 1))
     (attendance_tbl ex_store_att)) = 4 \<and>
   map_option leftThisMonth (pub_dashboard (fst
     (fetchData utc (2024, 1) ex_day
        [Some ex_store_att, Some ex_store_att, Some ex_store_att, Some ex_store_att, None, None]
        ex_pub))) = Some 0 \<and>
   map_option monthlyAttendance (pub_dashboard (fst
     (fetchData utc (2024, 1) ex_day
        [Some ex_store_att, Some ex_store_att, Some ex_store_att, Some ex_store_att, None, None]
        ex_pub))) = Some []"
proof -
  have v: "valid_month (2024, 1)"
    by (simp add: valid_month_def)
  have a: "length (pub_students ex_pub) = 2"
    by (simp add: ex_pub_def ex_store_def)
  have b: "length (pub_students (fst
     (fetchData utc (2024, 1) ex_day [Some ex_store_att, None, None, None, None, None] ex_pub))) = 3"
    unfolding fetchData_six by (simp add: studentsQuery_def ex_store_att_def)
  have c: "pub_dashboard (fst
     (fetchData utc (2024, 1) ex_day [Some ex_store_att, None, None, None, None, None] ex_pub)) =
     pub_dashboard ex_pub"
    unfolding fetchData_six by simp
  have d: "leftStudentsQuery (startOfMonth (2024, 1)) (endOfMonth utc (2024, 1)) (students_tbl ex_store_att) = [3]"
    unfolding endOfMonth_utc_jan
    by (simp add: leftStudentsQuery_def ex_store_att_def ex_student_def date_le_def startOfMonth_def)
  have e: "length (monthlyAttQuery (startOfMonth (2024, 1)) (endOfMonth utc (2024, 1))
     (attendance_tbl ex_store_att)) = 4"
    unfolding endOfMonth_utc_jan
    by (simp add: monthlyAttQuery_def ex_store_att_def ex_att_def date_le_def startOfMonth_def)
  have f: "map_option leftThisMonth (pub_dashboard (fst
     (fetchData utc (2024, 1) ex_day
        [Some ex_store_att, Some ex_store_att, Some ex_store_att, Some ex_store_att, None, None]
        ex_pub))) = Some 0"
    unfolding fetchData_six using v by (simp add: computeDashboard_def)
  have g: "map_option monthlyAttendance (pub_dashboard (fst
     (fetchData utc (2024, 1) ex_day
        [Some ex_store_att, Some ex_store_att, Some ex_store_att, Some ex_store_att, None, None]
        ex_pub))) = Some []"
    unfolding fetchData_six using v by (simp add: computeDashboard_def)
  from a b c d e f g show ?thesis by blast
qed

lemma activeStudents_filter: "activeStudents tz M tbl = filter (active_in tz M) tbl"
  unfolding activeStudents_def activeStudentsQuery_def
  by (rule filter_cong [OF refl]) (simp add: active_in_def)

lemma for_month_computeDashboard:
  assumes "\<forall>s \<in> set a. active_in tz M s" and "\<forall>f \<in> set fs. f_fee_month f = M"
    and "m = None \<or> (\<exists>st :: Store. m = Some (monthlyAttQuery (startOfMonth M) (endOfMonth tz M) (attendance_tbl st)))"
  shows "for_month tz M (computeDashboard a fs l m)"
  using assms
  by (cases m) (auto simp: for_month_def computeDashboard_def monthlyAttQuery_def)

lemma pass_inv_start: "pass_inv tz (start_pass M D)"
  by (simp add: pass_inv_def start_pass_def)

lemma resume_month:
  "resume tz ans p pub = (p', pub', v) \<Longrightarrow> p_selectedMonth p' = p_selectedMonth p"
  by (cases "p_pc p") (auto simp: resume_def Let_def split: option.splits)

lemma resume_ended:
  "p_pc p = Finished \<Longrightarrow> resume tz ans p pub = (p, pub, None)"
  by (simp add: resume_def)

lemma resume_pass_inv:
  assumes "resume tz ans p pub = (p', pub', v)" and "pass_inv tz p"
  shows "pass_inv tz p'"
proof (cases "p_pc p")
  case AwaitStudents
  with assms show ?thesis
    by (cases ans) (auto simp: resume_def pass_inv_def)
next
  case AwaitAttendance
  with assms show ?thesis
    by (cases ans; cases "valid_month (p_selectedMonth p)")
       (auto simp: resume_def pass_inv_def month_bounds_def)
next
  case AwaitActive
  with assms show ?thesis
    by (cases ans) (auto simp: resume_def pass_inv_def)
next
  case AwaitPaid
  with assms show ?thesis
    by (cases ans) (auto simp: resume_def pass_inv_def)
next
  case AwaitLeft
  with assms show ?thesis
    by (cases ans) (auto simp: resume_def pass_inv_def)
next
  case AwaitMonthly
  with assms show ?thesis
    by (cases "p_activeStudents p"; cases "p_paidFees p") (auto simp: resume_def pass_inv_def)
next
  case Finished
  with assms show ?thesis
    by (auto simp: resume_def)
next
  case (Thrown e)
  with assms show ?thesis
    by (auto simp: resume_def)
qed

lemma resume_dashboard:
  assumes "resume tz ans p pub = (p', pub', v)"
  shows "if v = Some DashboardView
         then (\<exists>d. pub_dashboard pub' = Some d \<and> written_by tz p' d)
         else pub_dashboard pub' = pub_dashboard pub"
proof (cases "p_pc p")
  case AwaitMonthly
  show ?thesis
  proof (cases "p_activeStudents p")
    case None
    with AwaitMonthly assms show ?thesis by (auto simp: resume_def)
  next
    case (Some a)
    note a = this
    show ?thesis
    proof (cases "p_paidFees p")
      case None
      with a AwaitMonthly assms show ?thesis by (auto simp: resume_def)
    next
      case (Some fs)
      let ?m = "map_option (\<lambda>st. monthlyAttQuery (startOfMonth (p_selectedMonth p))
               (endOfMonth tz (p_selectedMonth p)) (attendance_tbl st)) ans"
      let ?d = "computeDashboard a fs (p_leftStudents p) ?m"
      have p': "p' = p\<lparr>p_pc := Finished\<rparr>" and pub': "pub' = pub\<lparr>pub_dashboard := Some ?d\<rparr>"
        and v: "v = Some DashboardView"
        using a Some AwaitMonthly assms by (auto simp: resume_def)
      have m: "?m = None \<or>
          (\<exists>st :: Store. ?m = Some (monthlyAttQuery (startOfMonth (p_selectedMonth p))
                           (endOfMonth tz (p_selectedMonth p)) (attendance_tbl st)))"
        by (cases ans) auto
      have "written_by tz p' ?d"
        unfolding written_by_def p' using a Some m by auto
      then show ?thesis
        using v pub' by simp
    qed
  qed
next
  case AwaitAttendance
  with assms show ?thesis
    by (cases ans) (auto simp: resume_def Let_def)
qed (use assms in \<open>auto simp: resume_def split: option.splits\<close>)

lemma written_by_for_month:
  assumes "written_by tz p d" and "pass_inv tz p"
  shows "for_month tz (p_selectedMonth p) d"
proof -
  from assms(1) obtain a fs m where a: "p_activeStudents p = Some a"
    and fs: "p_paidFees p = Some fs"
    and d: "d = computeDashboard a fs (p_leftStudents p) m"
    and m: "m = None \<or>
          (\<exists>st :: Store. m = Some (monthlyAttQuery (startOfMonth (p_selectedMonth p))
                           (endOfMonth tz (p_selectedMonth p)) (attendance_tbl st)))"
    unfolding written_by_def by blast
  from assms(2) a obtain st :: Store where "a = activeStudents tz (p_selectedMonth p) (students_tbl st)"
    unfolding pass_inv_def by blast
  then have 1: "\<forall>s \<in> set a. active_in tz (p_selectedMonth p) s"
    by (simp add: activeStudents_filter)
  from assms(2) fs obtain st' :: Store where "fs = paidFeesQuery (p_selectedMonth p) st'"
    unfolding pass_inv_def by blast
  then have 2: "\<forall>f \<in> set fs. f_fee_month f = p_selectedMonth p"
    by (auto simp: paidFeesQuery_def embed_student_fields)
  show ?thesis
    unfolding d using 1 2 m by (rule for_month_computeDashboard)
qed

lemma sys_inv_init: "sys_inv tz (init_sys st M D)"
  by (simp add: sys_inv_def dashboard_of_one_pass_def init_sys_def)

lemma dashboard_of_one_pass_append:
  assumes "dashboard_of_one_pass tz s"
  shows "dashboard_of_one_pass tz (s\<lparr>sys_passes := sys_passes s @ [q]\<rparr>)"
  using assms
  by (auto simp: dashboard_of_one_pass_def nth_append)

lemma step_inv:
  assumes "sys_inv tz s"
  shows "sys_inv tz (step tz s e)"
proof (cases e)
  case (SelectMonth M)
  have "dashboard_of_one_pass tz (s\<lparr>sys_selectedMonth := M\<rparr>)"
    using assms by (simp add: sys_inv_def dashboard_of_one_pass_def)
  from dashboard_of_one_pass_append [OF this, of "start_pass M (sys_attendanceDate s)"]
  show ?thesis
    using assms SelectMonth by (simp add: sys_inv_def step_def pass_inv_start)
next
  case (SelectDate D)
  have "dashboard_of_one_pass tz (s\<lparr>sys_attendanceDate := D\<rparr>)"
    using assms by (simp add: sys_inv_def dashboard_of_one_pass_def)
  from dashboard_of_one_pass_append [OF this, of "start_pass (sys_selectedMonth s) D"]
  show ?thesis
    using assms SelectDate by (simp add: sys_inv_def step_def pass_inv_start)
next
  case Notify
  have "dashboard_of_one_pass tz s"
    using assms by (simp add: sys_inv_def)
  from dashboard_of_one_pass_append [OF this, of "start_pass (sys_selectedMonth s) (sys_attendanceDate s)"]
  show ?thesis
    using assms Notify by (simp add: sys_inv_def step_def pass_inv_start)
next
  case (Mutate st)
  with assms show ?thesis
    by (simp add: sys_inv_def step_def dashboard_of_one_pass_def)
next
  case (Resume i ok)
  show ?thesis
  proof (cases "i < length (sys_passes s)")
    case False
    with assms Resume show ?thesis by (simp add: step_def)
  next
    case True
    let ?ans = "if ok then Some (sys_store s) else None"
    let ?p = "sys_passes s ! i"
    obtain p' pub' v where r: "resume tz ?ans ?p (sys_pub s) = (p', pub', v)"
      by (cases "resume tz ?ans ?p (sys_pub s)")
    let ?s' = "s\<lparr>sys_pub := pub', sys_passes := (sys_passes s)[i := p'],
                 sys_writer := (case v of None \<Rightarrow> sys_writer s
                                | Some w \<Rightarrow> (sys_writer s)(w := Some i))\<rparr>"
    have s': "step tz s e = ?s'"
      using Resume True r by (simp add: step_def)
    have pi: "pass_inv tz ?p"
      using assms True by (simp add: sys_inv_def)
    have p'_inv: "pass_inv tz p'"
      using r pi by (rule resume_pass_inv)
    have passes: "\<forall>q \<in> set ((sys_passes s)[i := p']). pass_inv tz q"
      using assms p'_inv set_update_subset_insert [of "sys_passes s" i p']
      by (auto simp: sys_inv_def)
    have kept: "written_by tz ((sys_passes s)[i := p'] ! j) d"
      if "j < length (sys_passes s)" and "written_by tz (sys_passes s ! j) d" for j d
    proof (cases "j = i")
      case True
      from that(2) have "p_pc ?p = Finished"
        unfolding True written_by_def by blast
      from resume_ended [OF this, of tz ?ans "sys_pub s"] r have "p' = ?p"
        by simp
      with that True show ?thesis by simp
    next
      case False
      with that show ?thesis by simp
    qed
    note dash = resume_dashboard [OF r]
    have "dashboard_of_one_pass tz ?s'"
    proof (cases "v = Some DashboardView")
      case True
      with dash obtain d where d: "pub_dashboard pub' = Some d"
        and fm: "written_by tz p' d"
        by auto
      show ?thesis
        using True d fm \<open>i < length (sys_passes s)\<close>
        by (simp add: dashboard_of_one_pass_def)
    next
      case False
      with dash have same: "pub_dashboard pub' = pub_dashboard (sys_pub s)" by simp
      have w: "(case v of None \<Rightarrow> sys_writer s | Some w \<Rightarrow> (sys_writer s)(w := Some i)) DashboardView =
          sys_writer s DashboardView"
        using False by (cases v) auto
      have old: "dashboard_of_one_pass tz s"
        using assms by (simp add: sys_inv_def)
      show ?thesis
        unfolding dashboard_of_one_pass_def
      proof (intro allI impI)
        fix d
        assume "pub_dashboard (sys_pub ?s') = Some d"
        then have "pub_dashboard (sys_pub s) = Some d"
          by (simp add: same)
        with old obtain j where j: "sys_writer s DashboardView = Some j"
          "j < length (sys_passes s)" "written_by tz (sys_passes s ! j) d"
          unfolding dashboard_of_one_pass_def by blast
        from kept [OF j(2,3)] j(1,2)
        show "\<exists>i. sys_writer ?s' DashboardView = Some i \<and> i < length (sys_passes ?s') \<and>
                  written_by tz (sys_passes ?s' ! i) d"
          by (simp add: w)
      qed
    qed
    with passes show ?thesis
      unfolding s' by (simp add: sys_inv_def)
  qed
qed

lemma run_inv: "sys_inv tz s \<Longrightarrow> sys_inv tz (run tz evs s)"
  unfolding run_def
  by (induction evs arbitrary: s) (simp_all add: step_inv)

text \<open>
  C8, amended. Whatever the events, a published dashboard was set whole by one
  pass, from that pass's own answers, and is of one month, the month that pass started
  with. In full: the dashboard \<open>d\<close> was set last by a pass \<open>p\<close> of the loop, which has
  ended; \<open>d\<close> is the value that fetchData computes (\<open>computeDashboard\<close>) from the
  active students and the fee rows that \<open>p\<close> holds, its list of left students and its
  monthly attendance rows; each of the four is the answer to the pass's query for its
  month on some contents of the store, or, for the last two, missing because the query
  failed; the month is a valid month; and so all fee rows of \<open>d\<close> have that fee month and
  its unpaid students and attendance rows satisfy that month's query filters
  (\<open>for_month\<close>). The four answers may be of different contents of the store, the
  students and attendance views are set by other steps, possibly of other passes, and a
  pass that started earlier may set the dashboard last.
\<close>

theorem C8_dashboard_is_of_one_pass_and_month:
  assumes "pub_dashboard (sys_pub (run tz evs (init_sys st M D))) = Some d"
  shows "\<exists>i p a fs m.
           sys_writer (run tz evs (init_sys st M D)) DashboardView = Some i \<and>
           i < length (sys_passes (run tz evs (init_sys st M D))) \<and>
           p = sys_passes (run tz evs (init_sys st M D)) ! i \<and>
           p_pc p = Finished \<and>
           valid_month (p_selectedMonth p) \<and>
           p_activeStudents p = Some a \<and>
           p_paidFees p = Some fs \<and>
           d = computeDashboard a fs (p_leftStudents p) m \<and>
           (\<exists>s1 :: Store. a = activeStudents tz (p_selectedMonth p) (students_tbl s1)) \<and>
           (\<exists>s2 :: Store. fs = paidFeesQuery (p_selectedMonth p) s2) \<and>
           (p_leftStudents p = None \<or>
            (\<exists>s3 :: Store. p_leftStudents p =
                    Some (leftStudentsQuery (startOfMonth (p_selectedMonth p))
                            (endOfMonth tz (p_selectedMonth p)) (students_tbl s3)))) \<and>
           (m = None \<or>
            (\<exists>s4 :: Store. m = Some (monthlyAttQuery (startOfMonth (p_selectedMonth p))
                             (endOfMonth tz (p_selectedMonth p)) (attendance_tbl s4)))) \<and>
           for_month tz (p_selectedMonth p) d"
proof -
  let ?s = "run tz evs (init_sys st M D)"
  have inv: "sys_inv tz ?s"
    by (rule run_inv) (rule sys_inv_init)
  then have "dashboard_of_one_pass tz ?s"
    by (simp add: sys_inv_def)
  with assms obtain i where i: "sys_writer ?s DashboardView = Some i"
    "i < length (sys_passes ?s)" and wr: "written_by tz (sys_passes ?s ! i) d"
    unfolding dashboard_of_one_pass_def by blast
  let ?p = "sys_passes ?s ! i"
  have pi: "pass_inv tz ?p"
    using inv i(2) by (simp add: sys_inv_def)
  from wr obtain a fs m where fin: "p_pc ?p = Finished"
    and a: "p_activeStudents ?p = Some a" and fs: "p_paidFees ?p = Some fs"
    and d: "d = computeDashboard a fs (p_leftStudents ?p) m"
    and m: "m = None \<or>
          (\<exists>s4 :: Store. m = Some (monthlyAttQuery (startOfMonth (p_selectedMonth ?p))
                           (endOfMonth tz (p_selectedMonth ?p)) (attendance_tbl s4)))"
    unfolding written_by_def by blast
  have vm: "valid_month (p_selectedMonth ?p)"
    using pi fin unfolding pass_inv_def by simp
  have a': "\<exists>s1 :: Store. a = activeStudents tz (p_selectedMonth ?p) (students_tbl s1)"
    using pi a unfolding pass_inv_def by blast
  have fs': "\<exists>s2 :: Store. fs = paidFeesQuery (p_selectedMonth ?p) s2"
    using pi fs unfolding pass_inv_def by blast
  have l': "p_leftStudents ?p = None \<or>
            (\<exists>s3 :: Store. p_leftStudents ?p =
                    Some (leftStudentsQuery (startOfMonth (p_selectedMonth ?p))
                            (endOfMonth tz (p_selectedMonth ?p)) (students_tbl s3)))"
  proof (cases "p_leftStudents ?p")
    case None
    then show ?thesis by simp
  next
    case (Some l)
    with pi obtain s3 :: Store where "l = leftStudentsQuery (startOfMonth (p_selectedMonth ?p))
                            (endOfMonth tz (p_selectedMonth ?p)) (students_tbl s3)"
      unfolding pass_inv_def by blast
    with Some show ?thesis by blast
  qed
  have fm: "for_month tz (p_selectedMonth ?p) d"
    using wr pi by (rule written_by_for_month)
  from i fin vm a fs d a' fs' l' m fm show ?thesis
    by blast
qed

lemmas run_eval = ex_final_def run_def ex_events_def step_def resume_def start_pass_def init_sys_def
  month_bounds_def valid_month_def

lemmas query_eval = activeStudents_def activeStudentsQuery_def paidFeesQuery_def
  leftStudentsQuery_def monthlyAttQuery_def attendanceQuery_def studentsQuery_def
  endOfMonth_utc last_day_of_month_def days_in_month_def leap_year_def startOfMonth_def
  date_le_def computeDashboard_def embed_student_def

lemmas ex_eval = ex_store_def ex_store_feb_def ex_student_def ex_fee_def ex_att_def ex_day_def

text \<open>
  C8 as claimed (the published state never mixes two passes or periods, and a
  trigger during a pass does not interleave with it) fails. After the events of
  \<open>ex_events\<close> the selected month is February, students and attendance were set by
  the February pass (three students, from the store after the change), and the dashboard
  was set afterwards by the January pass: January's fee rows and an active count of 2
  from the store before the change, with attendance rows from the store after it.
\<close>

theorem C8_stale_pass_overwrites_counterexample:
  "sys_selectedMonth ex_final = (2024, 2) \<and>
   map p_selectedMonth (sys_passes ex_final) = [(2024, 1), (2024, 2)] \<and>
   sys_writer ex_final StudentsView = Some 1 \<and>
   sys_writer ex_final AttendanceView = Some 1 \<and>
   sys_writer ex_final DashboardView = Some 0 \<and>
   length (pub_students (sys_pub ex_final)) = 3 \<and>
   map_option activeCount (pub_dashboard (sys_pub ex_final)) = Some 2 \<and>
   map_option (\<lambda>d. map f_fee_month (paidFees d)) (pub_dashboard (sys_pub ex_final)) =
     Some [(2024, 1), (2024, 1)] \<and>
   map_option monthlyAttendance (pub_dashboard (sys_pub ex_final)) = Some [ex_att 1 10 Present] \<and>
   attendance_tbl ex_store = []"
proof -
  have a: "sys_selectedMonth ex_final = (2024, 2)"
    by (simp add: run_eval)
  have b: "map p_selectedMonth (sys_passes ex_final) = [(2024, 1), (2024, 2)]"
    by (simp add: run_eval)
  have c: "sys_writer ex_final StudentsView = Some 1"
    "sys_writer ex_final AttendanceView = Some 1"
    "sys_writer ex_final DashboardView = Some 0"
    by (simp_all add: run_eval)
  have d: "length (pub_students (sys_pub ex_final)) = 3"
    by (simp add: run_eval studentsQuery_def ex_store_feb_def)
  have e: "map_option activeCount (pub_dashboard (sys_pub ex_final)) = Some 2"
    by (simp add: run_eval query_eval ex_eval)
  have f: "map_option (\<lambda>d. map f_fee_month (paidFees d)) (pub_dashboard (sys_pub ex_final)) =
     Some [(2024, 1), (2024, 1)]"
    by (simp add: run_eval query_eval ex_eval)
  have g: "map_option monthlyAttendance (pub_dashboard (sys_pub ex_final)) = Some [ex_att 1 10 Present]"
    by (simp add: run_eval query_eval ex_eval)
  have h: "attendance_tbl ex_store = []"
    by (simp add: ex_store_def)
  from a b c d e f g h show ?thesis by blast
qed

theorem C8_dashboard_witness:
  "sys_writer ex_final DashboardView = Some 0 \<and>
   p_selectedMonth (sys_passes ex_final ! 0) = (2024, 1) \<and>
   p_pc (sys_passes ex_final ! 0) = Finished \<and>
   pub_dashboard (sys_pub ex_final) =
     Some (computeDashboard
             (activeStudents utc (2024, 1) (students_tbl ex_store))
             (paidFeesQuery (2024, 1) ex_store)
             (Some (leftStudentsQuery (startOfMonth (2024, 1)) (endOfMonth utc (2024, 1))
                      (students_tbl ex_store)))
             (Some (monthlyAttQuery (startOfMonth (2024, 1)) (endOfMonth utc (2024, 1))
                      (attendance_tbl ex_store_feb)))) \<and>
   map_option (for_month utc (2024, 1)) (pub_dashboard (sys_pub ex_final)) = Some True"
proof -
  have d: "pub_dashboard (sys_pub ex_final) =
     Some (computeDashboard
             (activeStudents utc (2024, 1) (students_tbl ex_store))
             (paidFeesQuery (2024, 1) ex_store)
             (Some (leftStudentsQuery (startOfMonth (2024, 1)) (endOfMonth utc (2024, 1))
                      (students_tbl ex_store)))
             (Some (monthlyAttQuery (startOfMonth (2024, 1)) (endOfMonth utc (2024, 1))
                      (attendance_tbl ex_store_feb))))"
    by (simp add: run_eval)
  have w: "sys_writer ex_final DashboardView = Some 0"
    by (simp add: run_eval)
  have m: "p_selectedMonth (sys_passes ex_final ! 0) = (2024, 1)"
    by (simp add: run_eval)
  have e: "p_pc (sys_passes ex_final ! 0) = Finished"
    by (simp add: run_eval)
  from C8_dashboard_is_of_one_pass_and_month [OF d [unfolded ex_final_def]] w m
  have "for_month utc (2024, 1)
     (computeDashboard
             (activeStudents utc (2024, 1) (students_tbl ex_store))
             (paidFeesQuery (2024, 1) ex_store)
             (Some (leftStudentsQuery (startOfMonth (2024, 1)) (endOfMonth utc (2024, 1))
                      (students_tbl ex_store)))
             (Some (monthlyAttQuery (startOfMonth (2024, 1)) (endOfMonth utc (2024, 1))
                      (attendance_tbl ex_store_feb))))"
    by (auto simp: ex_final_def)
  with d w m e show ?thesis by simp
qed

section \<open>The earlier variant of the export\<close>

lemma exportCSV_v0_Some:
  "exportCSV_v0 (Some d) =
     Some (case rows_v0 (paidFees d) of
             Inl e \<Rightarrow> Inl e
           | Inr rows \<Rightarrow> Inr (csvContent fee_headers rows))"
  by (simp add: exportCSV_v0_def)

lemma rows_v0_fee_row:
  assumes "\<forall>f \<in> set fs. \<exists>r. student f = Some r \<and> r_full_name r \<noteq> []"
  shows "rows_v0 fs = Inr (map fee_row fs)"
  using assms
  by (induction fs) (auto simp: fee_row_v0_def fee_row_def)

lemma exportCSV_v0_agrees:
  assumes "\<forall>f \<in> set (paidFees d). \<exists>r. student f = Some r \<and> r_full_name r \<noteq> []"
  shows "exportCSV_v0 (Some d) = map_option Inr (exportCSV FeesReport (Some d) students [])"
  using rows_v0_fee_row [OF assms]
  by (simp add: exportCSV_v0_Some exportCSV_fees fee_in_report_def)

lemma exportCSV_v0_comma:
  "exportCSV_v0 (Some (reconcile utc (2024, 1) ex_store_comma)) =
     Some (Inr (''Student Name,Amount,Date,Mode,Reference'' @ [CHR 0x0A] @
                ''Rao, Asha,500,2024-01-05,Cash,''))"
  unfolding exportCSV_v0_Some paidFees_ex_store_comma
  by (simp add: fee_row_v0_def embed_student_def ex_store_comma_def ex_fee_def ex_student_def
      String_int_500 payment_mode_str_def csvContent_def fee_headers_def)

end
